theory Spec2Isabelle
  imports Complex_Main
begin

section \<open>JavaScript numbers\<close>

text \<open>
  A JavaScript number is a finite value, one of the two infinities, or NaN. The finite
  values are modelled as exact reals: rounding of IEEE doubles is not modelled. What is
  modelled is everything the services observe beyond plain arithmetic: NaN from \<open>0 / 0\<close>,
  NaN making every comparison false, NaN and 0 being falsy under \<open>||\<close>, and
  \<open>Math.min\<close>/\<open>Math.max\<close> propagating NaN.
\<close>

datatype jsnum = Fin real | PInf | NInf | NaN

fun js_truthy_num :: "jsnum \<Rightarrow> bool" where
  "js_truthy_num (Fin x) = (x \<noteq> 0)"
| "js_truthy_num PInf = True"
| "js_truthy_num NInf = True"
| "js_truthy_num NaN = False"

text \<open>\<open>a < b\<close> on numbers; false as soon as one side is NaN.\<close>

fun js_lt :: "jsnum \<Rightarrow> jsnum \<Rightarrow> bool" where
  "js_lt NaN _ = False"
| "js_lt _ NaN = False"
| "js_lt (Fin a) (Fin b) = (a < b)"
| "js_lt (Fin _) PInf = True"
| "js_lt (Fin _) NInf = False"
| "js_lt PInf _ = False"
| "js_lt NInf NInf = False"
| "js_lt NInf _ = True"

definition js_gt :: "jsnum \<Rightarrow> jsnum \<Rightarrow> bool" where
  "js_gt a b = js_lt b a"

text \<open>\<open>a >= b\<close>: neither side NaN and not \<open>a < b\<close>.\<close>

definition js_ge :: "jsnum \<Rightarrow> jsnum \<Rightarrow> bool" where
  "js_ge a b = (a \<noteq> NaN \<and> b \<noteq> NaN \<and> \<not> js_lt a b)"

text \<open>\<open>Math.min(a, b)\<close> and \<open>Math.max(a, b)\<close>.\<close>

definition js_min :: "jsnum \<Rightarrow> jsnum \<Rightarrow> jsnum" where
  "js_min a b = (if a = NaN \<or> b = NaN then NaN else if js_lt b a then b else a)"

definition js_max :: "jsnum \<Rightarrow> jsnum \<Rightarrow> jsnum" where
  "js_max a b = (if a = NaN \<or> b = NaN then NaN else if js_lt a b then b else a)"

fun js_add :: "jsnum \<Rightarrow> jsnum \<Rightarrow> jsnum" where
  "js_add NaN _ = NaN"
| "js_add _ NaN = NaN"
| "js_add (Fin a) (Fin b) = Fin (a + b)"
| "js_add PInf NInf = NaN"
| "js_add NInf PInf = NaN"
| "js_add PInf _ = PInf"
| "js_add NInf _ = NInf"
| "js_add (Fin _) PInf = PInf"
| "js_add (Fin _) NInf = NInf"

text \<open>
  \<open>a / n\<close> where \<open>n\<close> is an array length or a positive literal, so the divisor is a
  natural number: \<open>0 / 0\<close> is NaN and a non-zero numerator over 0 is an infinity.
\<close>

fun js_div_count :: "jsnum \<Rightarrow> nat \<Rightarrow> jsnum" where
  "js_div_count NaN _ = NaN"
| "js_div_count PInf _ = PInf"
| "js_div_count NInf _ = NInf"
| "js_div_count (Fin a) n =
     (if n = 0 then (if a = 0 then NaN else if 0 < a then PInf else NInf)
      else Fin (a / real n))"

text \<open>\<open>a * 1000\<close>, used for second-to-millisecond conversion.\<close>

fun js_times_1000 :: "jsnum \<Rightarrow> jsnum" where
  "js_times_1000 (Fin a) = Fin (a * 1000)"
| "js_times_1000 n = n"

text \<open>A finite number between 0 and 1.\<close>

fun in_unit :: "jsnum \<Rightarrow> bool" where
  "in_unit (Fin x) = (0 \<le> x \<and> x \<le> 1)"
| "in_unit _ = False"

section \<open>Errors, calls to the collaborators, the world\<close>

text \<open>
  Every \<open>throw\<close> and rejected promise is a value. An axios error carries the HTTP status
  (absent on a network error or timeout) and the \<open>retry-after\<close> header.
\<close>

datatype error =
    AxiosError "nat option" "string option"
  | TypeError
  | ParseError
  | PlainError string
  | ValidationError string

record chat_message =
  msg_role :: string
  msg_content :: string

text \<open>
  The external services are reached through awaited calls, one at a time. Each call is
  appended to a log; what a service answers is a function of the log so far (which ends
  with the call itself), so any sequence of answers and failures can be described.
\<close>

datatype event =
    ChatCall string string "string option"
  | JudgeCall string string "chat_message list"
  | InsightsCall
  | OptimizeCall string
  | UpdatePromptCall string string
  | GetAgentCall string
  | AnalyzeCall string
  | GenerateCasesCall string

section \<open>Untyped generator output\<close>

text \<open>
  A value as \<open>JSON.parse\<close> gives it, plus \<open>undefined\<close> for what is absent. An object is
  its list of own properties in \<open>Object.keys\<close> order, with distinct keys.
\<close>

datatype jsval =
    JUndefined
  | JNull
  | JBool bool
  | JNum jsnum
  | JStr string
  | JArr "jsval list"
  | JObj "(string \<times> jsval) list"

fun js_truthy :: "jsval \<Rightarrow> bool" where
  "js_truthy JUndefined = False"
| "js_truthy JNull = False"
| "js_truthy (JBool b) = b"
| "js_truthy (JNum n) = js_truthy_num n"
| "js_truthy (JStr s) = (s \<noteq> [])"
| "js_truthy (JArr _) = True"
| "js_truthy (JObj _) = True"

text \<open>\<open>a || b\<close>.\<close>

definition js_or :: "jsval \<Rightarrow> jsval \<Rightarrow> jsval" where
  "js_or a b = (if js_truthy a then a else b)"





text \<open>
  \<open>v.key\<close> for the property names the service reads (\<open>metrics\<close>, \<open>role\<close>, \<open>speaker\<close>,
  \<open>content\<close>, ...): a \<open>TypeError\<close> on \<open>null\<close> and \<open>undefined\<close>, the property of an object, and
  \<open>undefined\<close> on a string, number, boolean or array, which have no such property.
\<close>

fun js_get :: "jsval \<Rightarrow> string \<Rightarrow> error + jsval" where
  "js_get JUndefined key = Inl TypeError"
| "js_get JNull key = Inl TypeError"
| "js_get (JObj kvs) key = Inr (case map_of kvs key of None \<Rightarrow> JUndefined | Some v \<Rightarrow> v)"
| "js_get _ key = Inr JUndefined"

text \<open>The same read once the value is known not to be \<open>null\<close> or \<open>undefined\<close>.\<close>

definition js_prop :: "jsval \<Rightarrow> string \<Rightarrow> jsval" where
  "js_prop v key = (case js_get v key of Inl _ \<Rightarrow> JUndefined | Inr x \<Rightarrow> x)"

text \<open>Decimal digits of an array index, for \<open>Object.keys\<close> of an array.\<close>

function show_nat :: "nat \<Rightarrow> string" where
  "show_nat n =
     (if n < 10 then [''0123456789'' ! n] else show_nat (n div 10) @ [''0123456789'' ! (n mod 10)])"
  by pat_completeness auto
termination
  by (relation "measure id") auto

declare show_nat.simps [simp del]


lemma js_prop_simps [simp]:
  "js_prop (JObj kvs) key = (case map_of kvs key of None \<Rightarrow> JUndefined | Some v \<Rightarrow> v)"
  "js_prop (JStr s) key = JUndefined"
  "js_prop (JNum n) key = JUndefined"
  "js_prop (JBool b) key = JUndefined"
  "js_prop (JArr xs) key = JUndefined"
  by (simp_all add: js_prop_def)

lemma js_or_simps [simp]:
  "js_truthy a \<Longrightarrow> js_or a b = a"
  "\<not> js_truthy a \<Longrightarrow> js_or a b = b"
  by (simp_all add: js_or_def)

section \<open>Values converted to numbers\<close>

text \<open>White space and decimal digits of an ASCII string.\<close>

definition is_space :: "char \<Rightarrow> bool" where
  "is_space c \<longleftrightarrow> c \<in> set [CHR '' '', CHR 0x09, CHR 0x0A, CHR 0x0B, CHR 0x0C, CHR 0x0D]"

definition is_digit :: "char \<Rightarrow> bool" where
  "is_digit c \<longleftrightarrow> c \<in> set ''0123456789''"

definition digit_value :: "char \<Rightarrow> nat" where
  "digit_value c = of_char c - 48"

definition digits_value :: "string \<Rightarrow> nat" where
  "digits_value ds = foldl (\<lambda>n c. 10 * n + digit_value c) 0 ds"

text \<open>\<open>s.trim()\<close> as the conversion to a number applies it.\<close>

definition trim_space :: "string \<Rightarrow> string" where
  "trim_space s = rev (dropWhile is_space (rev (dropWhile is_space s)))"

text \<open>The value of a digit in base 2, 8 or 16, if the character is one.\<close>

definition digit_in_base :: "nat \<Rightarrow> char \<Rightarrow> nat option" where
  "digit_in_base b c =
     (case map_of (zip ''0123456789abcdef'' [0, 1, 2, 3, 4, 5, 6, 7, 8, 9, 10, 11, 12, 13, 14, 15]
                   @ zip ''ABCDEF'' [10, 11, 12, 13, 14, 15]) c of
        None \<Rightarrow> None
      | Some d \<Rightarrow> if d < b then Some d else None)"

definition based_value :: "nat \<Rightarrow> string \<Rightarrow> jsnum" where
  "based_value b ds =
     (if ds \<noteq> [] \<and> list_all (\<lambda>c. digit_in_base b c \<noteq> None) ds
      then Fin (real (foldl (\<lambda>n c. b * n + the (digit_in_base b c)) 0 ds))
      else NaN)"

text \<open>
  What may follow the digits of a decimal literal: nothing, or \<open>e\<close> or \<open>E\<close> with a
  signed run of digits. The result is the exponent, or \<open>None\<close> when the text is neither.
\<close>

definition exponent_value :: "string \<Rightarrow> int option" where
  "exponent_value r =
     (if r = [] then Some 0
      else if hd r = CHR ''e'' \<or> hd r = CHR ''E'' then
        (let s = tl r;
             neg = (s \<noteq> [] \<and> hd s = CHR ''-'');
             ds = (if s \<noteq> [] \<and> (hd s = CHR ''-'' \<or> hd s = CHR ''+'') then tl s else s)
         in if ds \<noteq> [] \<and> list_all is_digit ds
            then Some (if neg then - int (digits_value ds) else int (digits_value ds))
            else None)
      else None)"

text \<open>
  An unsigned decimal literal: digits, an optional point with digits on at least one
  side of it, an optional exponent.
\<close>

definition unsigned_decimal :: "string \<Rightarrow> real option" where
  "unsigned_decimal u =
     (let ip = takeWhile is_digit u;
          r1 = dropWhile is_digit u;
          dot = (r1 \<noteq> [] \<and> hd r1 = CHR ''.'');
          fp = (if dot then takeWhile is_digit (tl r1) else []);
          r2 = (if dot then dropWhile is_digit (tl r1) else r1)
      in if ip = [] \<and> fp = [] then None
         else (case exponent_value r2 of
                 None \<Rightarrow> None
               | Some e \<Rightarrow>
                   Some ((real (digits_value ip) + real (digits_value fp) / 10 ^ length fp)
                         * (if 0 \<le> e then 10 ^ nat e else 1 / 10 ^ nat (- e)))))"

text \<open>
  The number a string converts to (\<open>Number(s)\<close>, and what \<open>Math.min\<close> makes of a string
  argument), on ASCII strings: white space around is dropped; the empty string is 0; a
  literal is binary, octal or hexadecimal with its prefix and no sign, or decimal with an
  optional sign, or a signed \<open>Infinity\<close>; anything else is NaN. The value is exact: no
  rounding, overflow or underflow.
\<close>

definition string_to_number :: "string \<Rightarrow> jsnum" where
  "string_to_number s =
     (let t = trim_space s;
          p = take 2 t
      in if t = [] then Fin 0
         else if p = ''0x'' \<or> p = ''0X'' then based_value 16 (drop 2 t)
         else if p = ''0o'' \<or> p = ''0O'' then based_value 8 (drop 2 t)
         else if p = ''0b'' \<or> p = ''0B'' then based_value 2 (drop 2 t)
         else (let neg = (hd t = CHR ''-'');
                   u = (if hd t = CHR ''-'' \<or> hd t = CHR ''+'' then tl t else t)
               in if u = ''Infinity'' then (if neg then NInf else PInf)
                  else (case unsigned_decimal u of
                          None \<Rightarrow> NaN
                        | Some x \<Rightarrow> Fin (if neg then - x else x))))"

text \<open>
  Converting an object to a primitive calls its \<open>toString\<close>. A parsed object has the
  inherited one unless it has an own property of that name, which, being data, cannot be
  called: then the conversion is a \<open>TypeError\<close>. An array is converted by converting its
  elements.
\<close>

fun conversion_throws :: "jsval \<Rightarrow> bool" where
  "conversion_throws (JObj kvs) = (map_of kvs ''toString'' \<noteq> None)"
| "conversion_throws (JArr xs) = list_ex conversion_throws xs"
| "conversion_throws _ = False"

text \<open>
  The number a value converts to when the conversion does not throw. An object prints as
  \<open>[object Object]\<close>, which is no number. An array prints its elements joined by commas:
  the empty array is the empty string, an array of one element reads as that element
  printed (a number prints to a string that reads back as itself, \<open>null\<close> prints as the
  empty string), and a longer array has a comma in it.
\<close>

fun to_number :: "jsval \<Rightarrow> jsnum" where
  "to_number JUndefined = NaN"
| "to_number JNull = Fin 0"
| "to_number (JBool b) = Fin (if b then 1 else 0)"
| "to_number (JNum n) = n"
| "to_number (JStr s) = string_to_number s"
| "to_number (JObj kvs) = NaN"
| "to_number (JArr []) = Fin 0"
| "to_number (JArr [JUndefined]) = Fin 0"
| "to_number (JArr [JNull]) = Fin 0"
| "to_number (JArr [JBool b]) = NaN"
| "to_number (JArr [JNum n]) = n"
| "to_number (JArr [JStr s]) = string_to_number s"
| "to_number (JArr [JObj kvs]) = NaN"
| "to_number (JArr [JArr xs]) = to_number (JArr xs)"
| "to_number (JArr (x # y # zs)) = NaN"

section \<open>The judge: LLMClient.evaluateResponse\<close>

text \<open>
  \<open>response.data\<close>, the answer of the generator: whatever \<open>JSON.parse\<close> made of its
  text. \<open>chatJSON\<close> casts it to the declared type without looking at it, so it is a value
  of any shape.
\<close>

type_synonym raw_evaluation = jsval

record metrics =
  relevance :: jsnum
  accuracy :: jsnum
  completeness :: jsnum
  helpfulness :: jsnum

text \<open>The result. Its reasoning is the parsed one passed on, a string only by declaration.\<close>

record judge_result =
  jr_passed :: bool
  jr_score :: jsnum
  jr_reasoning :: jsval
  jr_metrics :: metrics

text \<open>\<open>Math.max(0, Math.min(1, v))\<close> on a number.\<close>

definition clamp01 :: "jsnum \<Rightarrow> jsnum" where
  "clamp01 v = js_max (Fin 0) (js_min (Fin 1) v)"

text \<open>\<open>s || d\<close> on an optional string: the empty string is falsy.\<close>

definition str_or :: "string option \<Rightarrow> string \<Rightarrow> string" where
  "str_or s d = (case s of None \<Rightarrow> d | Some t \<Rightarrow> if t = [] then d else t)"

text \<open>The metrics used when the answer has none.\<close>

definition default_metrics :: jsval where
  "default_metrics =
     JObj [(''relevance'', JNum (Fin 0)), (''accuracy'', JNum (Fin 0)),
           (''completeness'', JNum (Fin 0)), (''helpfulness'', JNum (Fin 0))]"

text \<open>
  A property can be set on an object or an array. Setting one on a string, number or
  boolean is a \<open>TypeError\<close>, since the body of a class, and of an ES module, is strict
  code.
\<close>

fun assignable :: "jsval \<Rightarrow> bool" where
  "assignable (JObj _) = True"
| "assignable (JArr _) = True"
| "assignable _ = False"

text \<open>
  One of the four statements \<open>metrics.k = Math.max(0, Math.min(1, metrics.k || 0))\<close>:
  the value assigned, or the \<open>TypeError\<close> of the conversion to a number or of the
  assignment. \<open>metrics\<close> is truthy here, so the read does not throw.
\<close>

definition bounded_metric :: "jsval \<Rightarrow> string \<Rightarrow> error + jsnum" where
  "bounded_metric metrics key =
     (let v = js_or (js_prop metrics key) (JNum (Fin 0))
      in if conversion_throws v then Inl TypeError
         else if assignable metrics then Inr (clamp01 (to_number v))
         else Inl TypeError)"

text \<open>
  The part of \<open>evaluateResponse\<close> after the generation call has returned. Reading
  \<open>response.data.metrics\<close> throws when the answer is \<open>null\<close>. The four metrics have
  different names, so each statement reads what was parsed.
\<close>

definition score_response :: "raw_evaluation \<Rightarrow> error + judge_result" where
  "score_response data =
     (case js_get data ''metrics'' of
        Inl err \<Rightarrow> Inl err
      | Inr parsed \<Rightarrow>
         (let metrics = js_or parsed default_metrics
          in case bounded_metric metrics ''relevance'' of
               Inl err \<Rightarrow> Inl err
             | Inr rel \<Rightarrow>
            (case bounded_metric metrics ''accuracy'' of
               Inl err \<Rightarrow> Inl err
             | Inr acc \<Rightarrow>
            (case bounded_metric metrics ''completeness'' of
               Inl err \<Rightarrow> Inl err
             | Inr com \<Rightarrow>
            (case bounded_metric metrics ''helpfulness'' of
               Inl err \<Rightarrow> Inl err
             | Inr hel \<Rightarrow>
                (let overallScore = js_div_count (js_add (js_add (js_add rel acc) com) hel) 4
                 in Inr \<lparr>jr_passed = js_ge overallScore (Fin (7 / 10)),
                         jr_score = clamp01 overallScore,
                         jr_reasoning =
                           js_or (js_prop data ''reasoning'') (JStr ''No reasoning provided''),
                         jr_metrics = \<lparr>relevance = rel, accuracy = acc, completeness = com,
                                        helpfulness = hel\<rparr>\<rparr>))))))"

section \<open>Test suites\<close>

datatype turn_role = User | ExpectedAgent | ActualAgent

record conversation_turn =
  role :: turn_role
  content :: string

text \<open>An evaluator with its configuration, as \<open>generateTestSuite\<close> builds them.\<close>

datatype evaluator =
    LlmEvaluator string jsnum
  | KeywordEvaluator "string list" bool
  | RegexEvaluator string string

record success_criteria =
  sc_name :: string
  sc_description :: string
  sc_type :: string
  sc_evaluator :: evaluator
  sc_weight :: jsnum
  sc_required :: bool

record test_case =
  tc_id :: string
  tc_name :: string
  tc_description :: string
  tc_category :: string
  conversationScript :: "conversation_turn list"
  successCriteria :: "success_criteria list"
  tc_priority :: string
  tc_tags :: "string list"

record test_suite =
  ts_agentId :: string
  ts_name :: string
  ts_description :: string
  testCases :: "test_case list"
  ts_version :: nat
  ts_status :: string

section \<open>Normalizing a conversation script\<close>









section \<open>Normalizing success criteria and test cases\<close>

text \<open>
  A criterion and a test case as the generator returned them, with the fields typed as
  the source declares them; a field that is absent or \<open>null\<close> is \<open>None\<close>. The weight
  is kept untyped, since the source tests \<open>typeof sc.weight\<close>, and so are the three
  places where a script may be.
\<close>

record raw_criterion =
  rc_name :: "string option"
  rc_criterion :: "string option"
  rc_description :: "string option"
  rc_type :: "string option"
  rc_evaluatorType :: "string option"
  rc_weight :: jsval
  rc_required :: "bool option"

record raw_test_case =
  rtc_name :: "string option"
  rtc_description :: "string option"
  rtc_category :: "string option"
  rtc_priority :: "string option"
  rtc_tags :: "string list option"
  rtc_conversationScript :: jsval
  rtc_conversation :: jsval
  rtc_script :: jsval
  rtc_successCriteria :: "raw_criterion list option"






section \<open>The collaborators and the world\<close>

text \<open>
  The collaborators of one run. \<open>judge\<close> stands for \<open>chatJSON\<close> as used by
  \<open>evaluateResponse\<close>: the HTTP call with its retries and the JSON parse, which either
  fail or give the parsed object. \<open>agent_chat\<close> is \<open>HighLevelClient.chat\<close> (mocked or
  live) and answers with a message and a conversation identity. \<open>gen_insights\<close> and
  \<open>gen_optimized\<close> are \<open>LLMClient.generateInsights\<close> and \<open>LLMClient.optimizePrompt\<close>,
  \<open>analyze_prompt\<close> and \<open>gen_test_cases\<close> are \<open>LLMClient.analyzePrompt\<close> (of which only
  the summary is used) and \<open>LLMClient.generateTestCases\<close>. \<open>find_suite\<close> is
  \<open>TestSuiteModel.findById\<close>, \<open>fresh_id\<close> is \<open>uuidv4()\<close> and \<open>today\<close> the date in the
  suite's name.
\<close>

record insights =
  failurePatterns :: "string list"
  recommendations :: "string list"

record optimization =
  opt_optimizedPrompt :: string
  opt_changes :: "string list"

record env =
  agent_chat :: "event list \<Rightarrow> error + (string \<times> string)"
  judge :: "event list \<Rightarrow> error + raw_evaluation"
  gen_insights :: "event list \<Rightarrow> error + insights"
  gen_optimized :: "event list \<Rightarrow> error + optimization"
  update_agent :: "event list \<Rightarrow> error + unit"
  get_agent :: "event list \<Rightarrow> error + string"
  find_suite :: "string \<Rightarrow> test_suite option"
  analyze_prompt :: "event list \<Rightarrow> error + string"
  gen_test_cases :: "event list \<Rightarrow> error + raw_test_case list"
  fresh_id :: "event list \<Rightarrow> nat \<Rightarrow> string"
  today :: "event list \<Rightarrow> string"

text \<open>A document of the OptimizedPrompt collection.\<close>

record optimized_prompt =
  op_agentId :: string
  op_originalPrompt :: string
  op_optimizedPrompt :: string
  op_score :: jsnum
  op_iterations :: nat

text \<open>
  The log of calls and the two collections the services write: the optimized prompts and
  the test suites, each in insertion order.
\<close>

record world =
  log :: "event list"
  optimized_prompts :: "optimized_prompt list"
  test_suites :: "test_suite list"

definition evaluateResponse ::
  "env \<Rightarrow> string \<Rightarrow> string \<Rightarrow> chat_message list \<Rightarrow> world \<Rightarrow> (error + judge_result) \<times> world" where
  "evaluateResponse e name description conversationTurns w =
     (let w' = w\<lparr>log := log w @ [JudgeCall name description conversationTurns]\<rparr>
      in case judge e (log w') of
           Inl err \<Rightarrow> (Inl err, w')
         | Inr resp \<Rightarrow> (score_response resp, w'))"

section \<open>Properties of the judge\<close>

lemma in_unit_FinE: "in_unit n \<Longrightarrow> \<exists>x. n = Fin x \<and> 0 \<le> x \<and> x \<le> 1"
  by (cases n) auto

lemma clamp01_unit_id: "0 \<le> x \<Longrightarrow> x \<le> 1 \<Longrightarrow> clamp01 (Fin x) = Fin x"
  by (simp add: clamp01_def js_min_def js_max_def)

text \<open>The value a finite number holds (0 for the others); used to state means.\<close>

fun fin_val :: "jsnum \<Rightarrow> real" where
  "fin_val (Fin x) = x"
| "fin_val _ = 0"

lemma mean_of_units:
  assumes "in_unit a" "in_unit b" "in_unit c" "in_unit d"
  defines "s \<equiv> js_div_count (js_add (js_add (js_add a b) c) d) 4"
  shows "s = Fin ((fin_val a + fin_val b + fin_val c + fin_val d) / 4)"
    and "clamp01 s = s"
    and "js_ge s (Fin (7 / 10)) \<longleftrightarrow> (fin_val a + fin_val b + fin_val c + fin_val d) / 4 \<ge> 7 / 10"
proof -
  obtain x y z u where xs: "a = Fin x" "b = Fin y" "c = Fin z" "d = Fin u"
    and bs: "0 \<le> x" "x \<le> 1" "0 \<le> y" "y \<le> 1" "0 \<le> z" "z \<le> 1" "0 \<le> u" "u \<le> 1"
    using assms(1-4) by (metis in_unit_FinE)
  show eq: "s = Fin ((fin_val a + fin_val b + fin_val c + fin_val d) / 4)"
    by (simp add: s_def xs)
  have lo: "0 \<le> (x + y + z + u) / 4" and hi: "(x + y + z + u) / 4 \<le> 1"
    using bs by simp_all
  show "clamp01 s = s"
    unfolding eq xs fin_val.simps by (rule clamp01_unit_id [OF lo hi])
  show "js_ge s (Fin (7 / 10)) \<longleftrightarrow> (fin_val a + fin_val b + fin_val c + fin_val d) / 4 \<ge> 7 / 10"
  proof -
    have "js_ge (Fin m) (Fin k) \<longleftrightarrow> k \<le> m" for m k :: real
      by (simp add: js_ge_def not_less)
    then show ?thesis unfolding eq by blast
  qed
qed

text \<open>
  What the four statements make of a parsed metric that is a number, \<open>null\<close> or absent:
  a finite number is brought into [0,1], plus infinity becomes 1, and everything falsy
  (0, NaN, \<open>null\<close>, absent) as well as minus infinity becomes 0.
\<close>

fun numeric_or_absent :: "jsval \<Rightarrow> bool" where
  "numeric_or_absent (JNum _) = True"
| "numeric_or_absent JNull = True"
| "numeric_or_absent JUndefined = True"
| "numeric_or_absent _ = False"

fun bounded_number :: "jsval \<Rightarrow> jsnum" where
  "bounded_number (JNum (Fin x)) = Fin (max 0 (min 1 x))"
| "bounded_number (JNum PInf) = Fin 1"
| "bounded_number _ = Fin 0"

lemma bounded_number_unit: "in_unit (bounded_number v)"
  by (cases v rule: bounded_number.cases) simp_all

lemma bounded_metric_numeric:
  assumes "assignable metrics" "numeric_or_absent (js_prop metrics key)"
  shows "bounded_metric metrics key = Inr (bounded_number (js_prop metrics key))"
proof (cases "js_prop metrics key")
  case (JNum n)
  with assms(1) show ?thesis
    by (cases n)
      (simp_all add: bounded_metric_def js_or_def clamp01_def js_min_def js_max_def max_def min_def)
qed (use assms in \<open>simp_all add: bounded_metric_def js_or_def clamp01_def js_min_def js_max_def\<close>)

text \<open>A truthy metric that is no number and converts to none comes out as NaN.\<close>

lemma bounded_metric_not_a_number:
  assumes "assignable metrics" "js_truthy (js_prop metrics key)"
    and "\<not> conversion_throws (js_prop metrics key)" "to_number (js_prop metrics key) = NaN"
  shows "bounded_metric metrics key = Inr NaN"
  using assms by (simp add: bounded_metric_def clamp01_def js_min_def js_max_def)

lemma string_to_number_examples:
  "string_to_number ''high'' = NaN"
  "string_to_number ''0.9'' = Fin (9 / 10)"
  "string_to_number '' 12 '' = Fin 12"
  "string_to_number ''-1.5e1'' = Fin (- 15)"
  "string_to_number ''0x1F'' = Fin 31"
  "string_to_number ''-Infinity'' = NInf"
  "string_to_number [] = Fin 0"
  "string_to_number ''1,2'' = NaN"
  "string_to_number ''.'' = NaN"
  by (simp_all add: string_to_number_def trim_space_def is_space_def is_digit_def
      unsigned_decimal_def exponent_value_def digits_value_def digit_value_def based_value_def
      digit_in_base_def Let_def)

text \<open>What the statements make of other values, and of answers of another shape.\<close>

lemma bounded_metric_examples:
  "bounded_metric (JObj [(''relevance'', JBool True)]) ''relevance'' = Inr (Fin 1)"
  "bounded_metric (JObj [(''relevance'', JStr ''0.5'')]) ''relevance'' = Inr (Fin (1 / 2))"
  "bounded_metric (JObj [(''relevance'', JStr ''2'')]) ''relevance'' = Inr (Fin 1)"
  "bounded_metric (JObj [(''relevance'', JArr [JNum (Fin (1 / 2))])]) ''relevance'' = Inr (Fin (1 / 2))"
  "bounded_metric (JObj [(''relevance'', JStr ''high'')]) ''relevance'' = Inr NaN"
  "bounded_metric (JObj [(''relevance'', JObj [])]) ''relevance'' = Inr NaN"
  "bounded_metric (JObj [(''relevance'', JObj [(''toString'', JNum (Fin 1))])]) ''relevance''
     = Inl TypeError"
  "bounded_metric (JArr []) ''relevance'' = Inr (Fin 0)"
  "bounded_metric (JNum (Fin 5)) ''relevance'' = Inl TypeError"
  by (simp_all add: bounded_metric_def string_to_number_def trim_space_def is_space_def
      is_digit_def unsigned_decimal_def exponent_value_def digits_value_def digit_value_def
      clamp01_def js_min_def js_max_def Let_def)

lemma score_response_examples:
  "score_response JNull = Inl TypeError"
  "score_response (JNum (Fin 5)) =
     Inr \<lparr>jr_passed = False, jr_score = Fin 0, jr_reasoning = JStr ''No reasoning provided'',
          jr_metrics = \<lparr>relevance = Fin 0, accuracy = Fin 0, completeness = Fin 0,
                         helpfulness = Fin 0\<rparr>\<rparr>"
  "score_response (JObj [(''metrics'', JStr ''good'')]) = Inl TypeError"
  by (simp_all add: score_response_def default_metrics_def bounded_metric_def clamp01_def
      js_min_def js_max_def js_ge_def Let_def)

text \<open>
  The \<open>passed\<close> and \<open>score\<close> of the answer are never read: two answers with the same
  metrics and the same reasoning are scored alike.
\<close>

lemma score_response_reads_metrics_and_reasoning:
  assumes "js_get data ''metrics'' = js_get data' ''metrics''"
    and "js_prop data ''reasoning'' = js_prop data' ''reasoning''"
  shows "score_response data = score_response data'"
  by (simp only: score_response_def assms)

text \<open>
  When the four parsed metrics are numbers, \<open>null\<close> or absent, the result has each of
  them bounded as above, hence in [0,1]; its score is their arithmetic mean and it passes
  exactly when the mean is at least 0.70.
\<close>

lemma score_response_numeric:
  assumes "js_get data ''metrics'' = Inr parsed"
    and "assignable (js_or parsed default_metrics)"
    and "numeric_or_absent (js_prop (js_or parsed default_metrics) ''relevance'')"
    and "numeric_or_absent (js_prop (js_or parsed default_metrics) ''accuracy'')"
    and "numeric_or_absent (js_prop (js_or parsed default_metrics) ''completeness'')"
    and "numeric_or_absent (js_prop (js_or parsed default_metrics) ''helpfulness'')"
  defines "m \<equiv> js_or parsed default_metrics"
  defines "mean \<equiv> (fin_val (bounded_number (js_prop m ''relevance''))
                    + fin_val (bounded_number (js_prop m ''accuracy''))
                    + fin_val (bounded_number (js_prop m ''completeness''))
                    + fin_val (bounded_number (js_prop m ''helpfulness''))) / 4"
  shows "score_response data =
           Inr \<lparr>jr_passed = (7 / 10 \<le> mean), jr_score = Fin mean,
                jr_reasoning = js_or (js_prop data ''reasoning'') (JStr ''No reasoning provided''),
                jr_metrics = \<lparr>relevance = bounded_number (js_prop m ''relevance''),
                               accuracy = bounded_number (js_prop m ''accuracy''),
                               completeness = bounded_number (js_prop m ''completeness''),
                               helpfulness = bounded_number (js_prop m ''helpfulness'')\<rparr>\<rparr>"
    and "0 \<le> mean \<and> mean \<le> 1"
proof -
  let ?a = "bounded_number (js_prop m ''relevance'')"
  let ?b = "bounded_number (js_prop m ''accuracy'')"
  let ?c = "bounded_number (js_prop m ''completeness'')"
  let ?d = "bounded_number (js_prop m ''helpfulness'')"
  let ?s = "js_div_count (js_add (js_add (js_add ?a ?b) ?c) ?d) 4"
  have bm: "bounded_metric m ''relevance'' = Inr ?a" "bounded_metric m ''accuracy'' = Inr ?b"
    "bounded_metric m ''completeness'' = Inr ?c" "bounded_metric m ''helpfulness'' = Inr ?d"
    using assms(2-6) unfolding m_def by (simp_all add: bounded_metric_numeric)
  note mu = mean_of_units [OF bounded_number_unit bounded_number_unit bounded_number_unit
      bounded_number_unit, of "js_prop m ''relevance''" "js_prop m ''accuracy''"
      "js_prop m ''completeness''" "js_prop m ''helpfulness''"]
  have s: "?s = Fin mean" using mu(1) by (simp add: mean_def)
  have cl: "clamp01 ?s = Fin mean" using mu(2) s by simp
  have ge: "js_ge ?s (Fin (7 / 10)) \<longleftrightarrow> 7 / 10 \<le> mean" using mu(3) by (simp add: mean_def)
  have "score_response data =
          Inr \<lparr>jr_passed = js_ge ?s (Fin (7 / 10)), jr_score = clamp01 ?s,
               jr_reasoning = js_or (js_prop data ''reasoning'') (JStr ''No reasoning provided''),
               jr_metrics = \<lparr>relevance = ?a, accuracy = ?b, completeness = ?c, helpfulness = ?d\<rparr>\<rparr>"
    using assms(1) bm unfolding m_def by (simp add: score_response_def Let_def)
  then show "score_response data =
           Inr \<lparr>jr_passed = (7 / 10 \<le> mean), jr_score = Fin mean,
                jr_reasoning = js_or (js_prop data ''reasoning'') (JStr ''No reasoning provided''),
                jr_metrics = \<lparr>relevance = ?a, accuracy = ?b, completeness = ?c, helpfulness = ?d\<rparr>\<rparr>"
    by (simp only: cl ge)
  have bd: "0 \<le> fin_val (bounded_number v)" "fin_val (bounded_number v) \<le> 1" for v
    by (cases v rule: bounded_number.cases, simp_all)+
  have "0 \<le> fin_val ?a + fin_val ?b + fin_val ?c + fin_val ?d"
    by (intro add_nonneg_nonneg) (rule bd)+
  moreover have "fin_val ?a + fin_val ?b + fin_val ?c + fin_val ?d \<le> 1 + 1 + 1 + 1"
    by (intro add_mono) (rule bd)+
  ultimately show "0 \<le> mean \<and> mean \<le> 1" unfolding mean_def by simp
qed

lemma evaluateResponse_scores:
  assumes "judge e (log w @ [JudgeCall name description turns]) = Inr data"
  shows "fst (evaluateResponse e name description turns w) = score_response data"
  using assms by (simp add: evaluateResponse_def Let_def)

text \<open>The judge of the examples: it answers every call with the same object.\<close>

definition judge_always :: "raw_evaluation \<Rightarrow> event list \<Rightarrow> error + raw_evaluation" where
  "judge_always r l = Inr r"

definition env0 :: "raw_evaluation \<Rightarrow> env" where
  "env0 r = \<lparr>agent_chat = (\<lambda>l. Inr (''ok'', ''conv-1'')), judge = judge_always r,
             gen_insights = (\<lambda>l. Inr \<lparr>failurePatterns = [], recommendations = []\<rparr>),
             gen_optimized = (\<lambda>l. Inr \<lparr>opt_optimizedPrompt = ''better'', opt_changes = []\<rparr>),
             update_agent = (\<lambda>l. Inr ()), get_agent = (\<lambda>l. Inr ''prompt''),
             find_suite = (\<lambda>i. None),
             analyze_prompt = (\<lambda>l. Inr ''books dental appointments''),
             gen_test_cases = (\<lambda>l. Inr []),
             fresh_id = (\<lambda>l k. ''id-'' @ show_nat (length l) @ ''-'' @ show_nat k),
             today = (\<lambda>l. ''2025-01-01'')\<rparr>"

definition world0 :: world where
  "world0 = \<lparr>log = [], optimized_prompts = [], test_suites = []\<rparr>"

text \<open>An answer with two metrics out of range, one missing, and a claimed pass.\<close>

definition wild_answer :: raw_evaluation where
  "wild_answer =
     JObj [(''passed'', JBool True), (''score'', JNum (Fin (99 / 100))),
           (''metrics'', JObj [(''relevance'', JNum (Fin (3 / 2))),
                               (''accuracy'', JNum (Fin (- 1 / 5))),
                               (''helpfulness'', JNum (Fin (9 / 10)))])]"

lemma evaluateResponse_wild_answer:
  "fst (evaluateResponse (env0 wild_answer) ''t'' ''d'' [] world0)
     = Inr \<lparr>jr_passed = False, jr_score = Fin (19 / 40),
            jr_reasoning = JStr ''No reasoning provided'',
            jr_metrics = \<lparr>relevance = Fin 1, accuracy = Fin 0, completeness = Fin 0,
                           helpfulness = Fin (9 / 10)\<rparr>\<rparr>"
proof -
  let ?m = "JObj [(''relevance'', JNum (Fin (3 / 2))), (''accuracy'', JNum (Fin (- 1 / 5))),
                  (''helpfulness'', JNum (Fin (9 / 10)))]"
  have g: "js_get wild_answer ''metrics'' = Inr ?m" by (simp add: wild_answer_def)
  have o: "js_or ?m default_metrics = ?m" by simp
  have r: "js_prop wild_answer ''reasoning'' = JUndefined" by (simp add: wild_answer_def)
  note n = score_response_numeric(1) [OF g, unfolded o]
  have "score_response wild_answer =
          Inr \<lparr>jr_passed = False, jr_score = Fin (19 / 40),
               jr_reasoning = JStr ''No reasoning provided'',
               jr_metrics = \<lparr>relevance = Fin 1, accuracy = Fin 0, completeness = Fin 0,
                              helpfulness = Fin (9 / 10)\<rparr>\<rparr>"
    by (simp add: n r)
  then show ?thesis
    by (simp add: evaluateResponse_def env0_def judge_always_def Let_def)
qed

text \<open>An answer whose first metric is a word, the other three being numbers in range.\<close>

definition worded_answer :: raw_evaluation where
  "worded_answer =
     JObj [(''passed'', JBool True), (''score'', JNum (Fin (9 / 10))),
           (''reasoning'', JStr ''a good answer''),
           (''metrics'', JObj [(''relevance'', JStr ''high''),
                               (''accuracy'', JNum (Fin (9 / 10))),
                               (''completeness'', JNum (Fin (4 / 5))),
                               (''helpfulness'', JNum (Fin 1))])]"

text \<open>
  C1. The claim is that for every judged transcript each of the four sub-metrics lies
  in [0,1] after parsing, out-of-range values being clamped, that the score is the mean
  of the clamped sub-metrics and that the transcript passes exactly when the score is at
  least 0.70. This holds when the parsed metrics are numbers or missing
  (\<open>score_response_numeric\<close>). It fails for an answer whose metric is a word: \<open>"high"\<close>
  is truthy, so it is not replaced by 0, and \<open>Math.min(1, "high")\<close> is NaN, which
  \<open>Math.max\<close> passes on. The result has the sub-metric NaN and the score NaN, neither in
  [0,1], although the statements stand under the comment "Ensure all scores are within
  bounds".
\<close>

theorem evaluateResponse_worded_metric_unbounded:
  "fst (evaluateResponse (env0 worded_answer) ''t'' ''d'' [] world0)
     = Inr \<lparr>jr_passed = False, jr_score = NaN, jr_reasoning = JStr ''a good answer'',
            jr_metrics = \<lparr>relevance = NaN, accuracy = Fin (9 / 10), completeness = Fin (4 / 5),
                           helpfulness = Fin 1\<rparr>\<rparr>
   \<and> in_unit NaN = False"
proof -
  have "score_response worded_answer =
          Inr \<lparr>jr_passed = False, jr_score = NaN, jr_reasoning = JStr ''a good answer'',
               jr_metrics = \<lparr>relevance = NaN, accuracy = Fin (9 / 10), completeness = Fin (4 / 5),
                              helpfulness = Fin 1\<rparr>\<rparr>"
    by (simp add: score_response_def worded_answer_def bounded_metric_def default_metrics_def
        string_to_number_examples(1) clamp01_def js_min_def js_max_def js_ge_def Let_def)
  then show ?thesis
    by (simp add: evaluateResponse_def env0_def judge_always_def Let_def)
qed

section \<open>The conversation simulator: HighLevelClient.simulateConversation\<close>

text \<open>
  \<open>HighLevelClient.chat\<close>, mocked or live: one call to the target agent, which fails or
  answers with a message and a conversation identity.
\<close>

definition chat ::
  "env \<Rightarrow> string \<Rightarrow> string \<Rightarrow> string option \<Rightarrow> world \<Rightarrow> (error + (string \<times> string)) \<times> world" where
  "chat e agentId message conversationId w =
     (let w' = w\<lparr>log := log w @ [ChatCall agentId message conversationId]\<rparr>
      in (agent_chat e (log w'), w'))"

text \<open>The \<open>for\<close> loop over the scripted messages, with \<open>turns\<close> and \<open>conversationId\<close>.\<close>

fun simulate_loop ::
  "env \<Rightarrow> string \<Rightarrow> string list \<Rightarrow> chat_message list \<Rightarrow> string option \<Rightarrow> world
     \<Rightarrow> (error + (chat_message list \<times> string option)) \<times> world" where
  "simulate_loop e agentId [] turns conversationId w = (Inr (turns, conversationId), w)"
| "simulate_loop e agentId (message # rest) turns conversationId w =
     (case chat e agentId message conversationId w of
        (Inl err, w') \<Rightarrow> (Inl err, w')
      | (Inr (reply, cid), w') \<Rightarrow>
          simulate_loop e agentId rest
            (turns @ [\<lparr>msg_role = ''user'', msg_content = message\<rparr>,
                      \<lparr>msg_role = ''assistant'', msg_content = reply\<rparr>])
            (Some cid) w')"

definition simulateConversation ::
  "env \<Rightarrow> string \<Rightarrow> string list \<Rightarrow> world
     \<Rightarrow> (error + (chat_message list \<times> string option)) \<times> world" where
  "simulateConversation e agentId messages w = simulate_loop e agentId messages [] None w"

text \<open>A transcript of scripted messages and the replies to them, turn by turn.\<close>

fun transcript :: "string list \<Rightarrow> string list \<Rightarrow> chat_message list" where
  "transcript (m # ms) (r # rs) =
     \<lparr>msg_role = ''user'', msg_content = m\<rparr> # \<lparr>msg_role = ''assistant'', msg_content = r\<rparr>
       # transcript ms rs"
| "transcript _ _ = []"

lemma simulate_loop_transcript:
  "fst (simulate_loop e a ms acc cid w) = Inr (turns, cid')
   \<Longrightarrow> \<exists>rs. length rs = length ms \<and> turns = acc @ transcript ms rs"
proof (induction ms arbitrary: acc cid w)
  case Nil
  then show ?case by simp
next
  case (Cons m ms)
  show ?case
  proof (cases "agent_chat e (log w @ [ChatCall a m cid])")
    case (Inl err)
    with Cons.prems show ?thesis by (simp add: chat_def Let_def)
  next
    case (Inr ans)
    obtain reply c where ans: "ans = (reply, c)" by (cases ans)
    let ?w = "w\<lparr>log := log w @ [ChatCall a m cid]\<rparr>"
    let ?acc = "acc @ [\<lparr>msg_role = ''user'', msg_content = m\<rparr>,
                       \<lparr>msg_role = ''assistant'', msg_content = reply\<rparr>]"
    from Cons.prems Inr ans
    have "fst (simulate_loop e a ms ?acc (Some c) ?w) = Inr (turns, cid')"
      by (simp add: chat_def Let_def)
    from Cons.IH [OF this] obtain rs where rs: "length rs = length ms" "turns = ?acc @ transcript ms rs"
      by blast
    then have "length (reply # rs) = length (m # ms) \<and> turns = acc @ transcript (m # ms) (reply # rs)"
      by simp
    then show ?thesis by blast
  qed
qed

lemma simulate_loop_returns:
  "\<forall>l. \<exists>r. agent_chat e l = Inr r \<Longrightarrow> \<exists>res. fst (simulate_loop e a ms acc cid w) = Inr res"
proof (induction ms arbitrary: acc cid w)
  case Nil
  then show ?case by simp
next
  case (Cons m ms)
  from Cons.prems obtain reply c where "agent_chat e (log w @ [ChatCall a m cid]) = Inr (reply, c)"
    by (metis surj_pair)
  then show ?case
    using Cons.IH [OF Cons.prems] by (simp add: chat_def Let_def)
qed

lemma length_transcript: "length rs = length ms \<Longrightarrow> length (transcript ms rs) = 2 * length ms"
  by (induction ms rs rule: transcript.induct) auto

lemma transcript_nth:
  "length rs = length ms \<Longrightarrow> i < length ms
   \<Longrightarrow> transcript ms rs ! (2 * i) = \<lparr>msg_role = ''user'', msg_content = ms ! i\<rparr>
     \<and> transcript ms rs ! (2 * i + 1) = \<lparr>msg_role = ''assistant'', msg_content = rs ! i\<rparr>"
proof (induction ms rs arbitrary: i rule: transcript.induct)
  case (1 m ms r rs)
  then show ?case by (cases i) auto
qed auto

text \<open>
  C10. A transcript that \<open>simulateConversation\<close> returns for N scripted messages has
  exactly 2N turns; turn 2i is the user turn carrying the i-th message, turn 2i+1 is an
  assistant turn, so the roles alternate starting with "user" and the user turns carry
  the messages in their order. The call returns a transcript whenever no call to the
  agent fails (a failing call aborts the simulation with that error).
\<close>

theorem simulateConversation_alternates:
  "(fst (simulateConversation e agentId messages w) = Inr (turns, cid)
      \<longrightarrow> length turns = 2 * length messages
          \<and> (\<forall>i < length messages.
                turns ! (2 * i) = \<lparr>msg_role = ''user'', msg_content = messages ! i\<rparr>
                \<and> msg_role (turns ! (2 * i + 1)) = ''assistant''))
   \<and> ((\<forall>l. \<exists>r. agent_chat e l = Inr r)
      \<longrightarrow> (\<exists>res. fst (simulateConversation e agentId messages w) = Inr res))"
proof (intro conjI impI)
  assume "fst (simulateConversation e agentId messages w) = Inr (turns, cid)"
  then obtain rs where rs: "length rs = length messages" "turns = transcript messages rs"
    unfolding simulateConversation_def using simulate_loop_transcript by fastforce
  show "length turns = 2 * length messages"
    using rs by (simp add: length_transcript)
  show "\<forall>i < length messages.
          turns ! (2 * i) = \<lparr>msg_role = ''user'', msg_content = messages ! i\<rparr>
          \<and> msg_role (turns ! (2 * i + 1)) = ''assistant''"
    using rs transcript_nth [of rs messages] by simp
next
  assume "\<forall>l. \<exists>r. agent_chat e l = Inr r"
  then show "\<exists>res. fst (simulateConversation e agentId messages w) = Inr res"
    unfolding simulateConversation_def by (rule simulate_loop_returns)
qed

theorem simulateConversation_alternates_witness:
  "fst (simulateConversation (env0 wild_answer) ''agent-1'' [''hi'', ''book''] world0)
     = Inr ([\<lparr>msg_role = ''user'', msg_content = ''hi''\<rparr>,
             \<lparr>msg_role = ''assistant'', msg_content = ''ok''\<rparr>,
             \<lparr>msg_role = ''user'', msg_content = ''book''\<rparr>,
             \<lparr>msg_role = ''assistant'', msg_content = ''ok''\<rparr>], Some ''conv-1'')
   \<and> (\<forall>l. \<exists>r. agent_chat (env0 wild_answer) l = Inr r)
   \<and> (\<exists>res. fst (simulateConversation (env0 wild_answer) ''agent-1'' [''hi'', ''book''] world0)
         = Inr res)
   \<and> length [\<lparr>msg_role = ''user'', msg_content = ''hi''\<rparr>,
             \<lparr>msg_role = ''assistant'', msg_content = ''ok''\<rparr>,
             \<lparr>msg_role = ''user'', msg_content = ''book''\<rparr>,
             \<lparr>msg_role = ''assistant'', msg_content = ''ok''\<rparr>] = 2 * length [''hi'', ''book'']"
proof -
  let ?T = "[\<lparr>msg_role = ''user'', msg_content = ''hi''\<rparr>,
             \<lparr>msg_role = ''assistant'', msg_content = ''ok''\<rparr>,
             \<lparr>msg_role = ''user'', msg_content = ''book''\<rparr>,
             \<lparr>msg_role = ''assistant'', msg_content = ''ok''\<rparr>]"
  have run: "fst (simulateConversation (env0 wild_answer) ''agent-1'' [''hi'', ''book''] world0)
               = Inr (?T, Some ''conv-1'')"
    by (simp add: simulateConversation_def chat_def env0_def Let_def)
  have ok: "\<forall>l. \<exists>r. agent_chat (env0 wild_answer) l = Inr r"
    by (simp add: env0_def)
  note alt = simulateConversation_alternates
    [of "env0 wild_answer" "''agent-1''" "[''hi'', ''book'']" world0 ?T "Some ''conv-1''"]
  from alt run have len: "length ?T = 2 * length [''hi'', ''book'']" by blast
  from alt ok have ret: "\<exists>res. fst (simulateConversation (env0 wild_answer) ''agent-1''
      [''hi'', ''book''] world0) = Inr res" by blast
  from run ok ret len show ?thesis by blast
qed

section \<open>Running a batch: OptimizerService.executeTests\<close>

record criteria_result =
  cr_criterionId :: string
  cr_passed :: bool
  cr_score :: jsnum
  cr_reasoning :: jsval

record evaluation =
  ev_testCaseId :: string
  ev_testCaseName :: string
  ev_passed :: bool
  ev_criteriaResults :: "criteria_result list"
  ev_overallScore :: jsnum
  ev_reasoning :: jsval
  ev_confidence :: jsnum
  ev_conversation :: "chat_message list"

record performance_metrics = metrics +
  overall :: jsnum

record test_results =
  evaluations :: "evaluation list"
  passRate :: jsnum
  overallScore :: jsnum
  avgMetrics :: performance_metrics

text \<open>\<open>xs.reduce((sum, x) => sum + f(x), 0)\<close>.\<close>

definition sum_by :: "('a \<Rightarrow> jsnum) \<Rightarrow> 'a list \<Rightarrow> jsnum" where
  "sum_by f xs = foldl (\<lambda>sum x. js_add sum (f x)) (Fin 0) xs"

text \<open>The \<open>for\<close> loop over the test cases, with \<open>evaluations\<close> and \<open>allMetrics\<close>.\<close>

fun execute_loop ::
  "env \<Rightarrow> string \<Rightarrow> test_case list \<Rightarrow> evaluation list \<Rightarrow> performance_metrics list \<Rightarrow> world
     \<Rightarrow> (error + (evaluation list \<times> performance_metrics list)) \<times> world" where
  "execute_loop e agentId [] evals allMetrics w = (Inr (evals, allMetrics), w)"
| "execute_loop e agentId (testCase # rest) evals allMetrics w =
     (let userMessages = map content (filter (\<lambda>t. role t = User) (conversationScript testCase))
      in case simulateConversation e agentId userMessages w of
           (Inl err, w1) \<Rightarrow> (Inl err, w1)
         | (Inr (turns, cid), w1) \<Rightarrow>
             (case evaluateResponse e (tc_name testCase) (tc_description testCase) turns w1 of
                (Inl err, w2) \<Rightarrow> (Inl err, w2)
              | (Inr result, w2) \<Rightarrow>
                  execute_loop e agentId rest
                    (evals @ [\<lparr>ev_testCaseId = tc_id testCase, ev_testCaseName = tc_name testCase,
                               ev_passed = jr_passed result,
                               ev_criteriaResults =
                                 [\<lparr>cr_criterionId = tc_id testCase, cr_passed = jr_passed result,
                                   cr_score = jr_score result, cr_reasoning = jr_reasoning result\<rparr>],
                               ev_overallScore = jr_score result,
                               ev_reasoning = jr_reasoning result,
                               ev_confidence = Fin (85 / 100), ev_conversation = turns\<rparr>])
                    (allMetrics @ [\<lparr>relevance = relevance (jr_metrics result),
                                    accuracy = accuracy (jr_metrics result),
                                    completeness = completeness (jr_metrics result),
                                    helpfulness = helpfulness (jr_metrics result),
                                    overall = jr_score result\<rparr>])
                    w2))"

text \<open>The aggregation after the loop: every mean divides by the length of its array.\<close>

definition aggregate :: "evaluation list \<Rightarrow> performance_metrics list \<Rightarrow> test_results" where
  "aggregate evals allMetrics =
     (let passRate = js_div_count (Fin (real (length (filter ev_passed evals)))) (length evals);
          overallScore = js_div_count (sum_by ev_overallScore evals) (length evals)
      in \<lparr>evaluations = evals, passRate = passRate, overallScore = overallScore,
          avgMetrics =
            \<lparr>relevance = js_div_count (sum_by relevance allMetrics) (length allMetrics),
             accuracy = js_div_count (sum_by accuracy allMetrics) (length allMetrics),
             completeness = js_div_count (sum_by completeness allMetrics) (length allMetrics),
             helpfulness = js_div_count (sum_by helpfulness allMetrics) (length allMetrics),
             overall = overallScore\<rparr>\<rparr>)"

definition executeTests ::
  "env \<Rightarrow> string \<Rightarrow> test_case list \<Rightarrow> world \<Rightarrow> (error + test_results) \<times> world" where
  "executeTests e agentId tcs w =
     (case execute_loop e agentId tcs [] [] w of
        (Inl err, w') \<Rightarrow> (Inl err, w')
      | (Inr (evals, allMetrics), w') \<Rightarrow> (Inr (aggregate evals allMetrics), w'))"



section \<open>The optimization loop: OptimizerService.optimize\<close>

definition getAgent :: "env \<Rightarrow> string \<Rightarrow> world \<Rightarrow> (error + string) \<times> world" where
  "getAgent e agentId w =
     (let w' = w\<lparr>log := log w @ [GetAgentCall agentId]\<rparr> in (get_agent e (log w'), w'))"

definition generateInsights :: "env \<Rightarrow> world \<Rightarrow> (error + insights) \<times> world" where
  "generateInsights e w =
     (let w' = w\<lparr>log := log w @ [InsightsCall]\<rparr> in (gen_insights e (log w'), w'))"

definition optimizePrompt :: "env \<Rightarrow> string \<Rightarrow> world \<Rightarrow> (error + optimization) \<times> world" where
  "optimizePrompt e currentPrompt w =
     (let w' = w\<lparr>log := log w @ [OptimizeCall currentPrompt]\<rparr> in (gen_optimized e (log w'), w'))"

definition updateAgentPrompt :: "env \<Rightarrow> string \<Rightarrow> string \<Rightarrow> world \<Rightarrow> (error + unit) \<times> world" where
  "updateAgentPrompt e agentId newPrompt w =
     (let w' = w\<lparr>log := log w @ [UpdatePromptCall agentId newPrompt]\<rparr>
      in (update_agent e (log w'), w'))"

text \<open>
  \<open>OptimizedPromptModel.findOneAndUpdate({ agentId }, doc, { upsert: true })\<close>: the first
  document of the agent takes the new fields; without one, the document is inserted.
\<close>

fun findOneAndUpdate_upsert :: "optimized_prompt \<Rightarrow> optimized_prompt list \<Rightarrow> optimized_prompt list" where
  "findOneAndUpdate_upsert d [] = [d]"
| "findOneAndUpdate_upsert d (x # xs) =
     (if op_agentId x = op_agentId d then d # xs else x # findOneAndUpdate_upsert d xs)"

record loop_state =
  bestScore :: jsnum
  bestPrompt :: string
  currentPrompt :: string
  allChanges :: "string list"
  iteration :: nat

record optimization_result =
  success :: bool
  iterations :: nat
  initialScore :: jsnum
  finalScore :: jsnum
  originalPrompt :: string
  optimizedPrompt :: string
  changes :: "string list"
  result_metrics :: performance_metrics
  before_passRate :: jsnum
  before_evaluations :: "evaluation list"
  after_passRate :: jsnum
  after_evaluations :: "evaluation list"

text \<open>
  The \<open>while\<close> loop. \<open>maxIterations\<close> is a finite number; the failing tests and the
  insights are taken from the initial results in every round, as the source does.
\<close>

function optimize_loop ::
  "env \<Rightarrow> string \<Rightarrow> test_case list \<Rightarrow> test_results \<Rightarrow> real \<Rightarrow> loop_state \<Rightarrow> world
     \<Rightarrow> (error + loop_state) \<times> world" where
  "optimize_loop e agentId tcs initialResults maxIterations st w =
     (if real (iteration st) < maxIterations \<and> js_lt (bestScore st) (Fin 1) then
        (let st1 = st\<lparr>iteration := iteration st + 1\<rparr>
         in if filter (\<lambda>ev. \<not> ev_passed ev) (evaluations initialResults) = [] then (Inr st1, w)
            else
              (case generateInsights e w of
                 (Inl err, w1) \<Rightarrow> (Inl err, w1)
               | (Inr ins, w1) \<Rightarrow>
                  (case optimizePrompt e (currentPrompt st1) w1 of
                     (Inl err, w2) \<Rightarrow> (Inl err, w2)
                   | (Inr opt, w2) \<Rightarrow>
                      (case updateAgentPrompt e agentId (opt_optimizedPrompt opt) w2 of
                         (Inl err, w3) \<Rightarrow> (Inl err, w3)
                       | (Inr u, w3) \<Rightarrow>
                          (let st2 = st1\<lparr>currentPrompt := opt_optimizedPrompt opt,
                                          allChanges := allChanges st1 @ opt_changes opt\<rparr>
                           in case executeTests e agentId tcs w3 of
                                (Inl err, w4) \<Rightarrow> (Inl err, w4)
                              | (Inr newResults, w4) \<Rightarrow>
                                  if js_gt (overallScore newResults) (bestScore st2) then
                                    (let st3 = st2\<lparr>bestScore := overallScore newResults,
                                                    bestPrompt := currentPrompt st2\<rparr>
                                     in if js_ge (bestScore st3) (Fin 1) then (Inr st3, w4)
                                        else optimize_loop e agentId tcs initialResults
                                               maxIterations st3 w4)
                                  else (Inr (st2\<lparr>bestPrompt := currentPrompt st2\<rparr>), w4))))))
      else (Inr st, w))"
  by pat_completeness auto
termination
proof (relation "measure (\<lambda>(e, agentId, tcs, initialResults, maxIterations, st, w).
                   nat \<lceil>maxIterations\<rceil> - iteration st)")
  show "wf (measure (\<lambda>(e, agentId, tcs, initialResults, maxIterations, st, w).
              nat \<lceil>maxIterations\<rceil> - iteration st))"
    by simp
next
  fix e :: env and agentId :: string and tcs :: "test_case list" and initialResults :: test_results
    and maxIterations :: real and st st1 st2 st3 :: loop_state and w w4 :: world
    and opt :: optimization and newResults :: test_results
  assume c: "real (iteration st) < maxIterations \<and> js_lt (bestScore st) (Fin 1)"
    and s1: "st1 = st\<lparr>iteration := iteration st + 1\<rparr>"
    and s2: "st2 = st1\<lparr>currentPrompt := opt_optimizedPrompt opt,
                        allChanges := allChanges st1 @ opt_changes opt\<rparr>"
    and s3: "st3 = st2\<lparr>bestScore := overallScore newResults, bestPrompt := currentPrompt st2\<rparr>"
  from c have "int (iteration st) < \<lceil>maxIterations\<rceil>"
    by (simp add: less_ceiling_iff)
  then have "iteration st < nat \<lceil>maxIterations\<rceil>" by linarith
  then show "((e, agentId, tcs, initialResults, maxIterations, st3, w4),
              (e, agentId, tcs, initialResults, maxIterations, st, w))
             \<in> measure (\<lambda>(e, agentId, tcs, initialResults, maxIterations, st, w).
                   nat \<lceil>maxIterations\<rceil> - iteration st)"
    by (simp add: s1 s2 s3)
qed

text \<open>\<open>optimize\<close>; \<open>maxIterations\<close> defaults to 2 at the call.\<close>

definition optimize ::
  "env \<Rightarrow> string \<Rightarrow> string \<Rightarrow> real \<Rightarrow> world \<Rightarrow> (error + optimization_result) \<times> world" where
  "optimize e agentId suiteId maxIterations w =
     (case find_suite e suiteId of
        None \<Rightarrow> (Inl (PlainError ''Test suite not found''), w)
      | Some suite \<Rightarrow>
         (case getAgent e agentId w of
            (Inl err, w1) \<Rightarrow> (Inl err, w1)
          | (Inr prompt0, w1) \<Rightarrow>
             (case executeTests e agentId (testCases suite) w1 of
                (Inl err, w2) \<Rightarrow> (Inl err, w2)
              | (Inr initialResults, w2) \<Rightarrow>
                 (let initialScore = overallScore initialResults;
                      st0 = \<lparr>bestScore = initialScore, bestPrompt = prompt0, currentPrompt = prompt0,
                             allChanges = [], iteration = 0\<rparr>
                  in if js_ge (bestScore st0) (Fin 1) then
                       (Inr \<lparr>success = True, iterations = 0, initialScore = initialScore,
                             finalScore = bestScore st0, originalPrompt = prompt0,
                             optimizedPrompt = currentPrompt st0, changes = [],
                             result_metrics = avgMetrics initialResults,
                             before_passRate = passRate initialResults,
                             before_evaluations = evaluations initialResults,
                             after_passRate = passRate initialResults,
                             after_evaluations = evaluations initialResults\<rparr>, w2)
                     else
                       (case optimize_loop e agentId (testCases suite) initialResults
                               maxIterations st0 w2 of
                          (Inl err, w3) \<Rightarrow> (Inl err, w3)
                        | (Inr st, w3) \<Rightarrow>
                           (case executeTests e agentId (testCases suite) w3 of
                              (Inl err, w4) \<Rightarrow> (Inl err, w4)
                            | (Inr finalResults, w4) \<Rightarrow>
                               (let w5 =
                                  (if js_gt (overallScore finalResults) initialScore then
                                     w4\<lparr>optimized_prompts :=
                                          findOneAndUpdate_upsert
                                            \<lparr>op_agentId = agentId, op_originalPrompt = prompt0,
                                             op_optimizedPrompt = bestPrompt st,
                                             op_score = overallScore finalResults,
                                             op_iterations = iteration st\<rparr>
                                            (optimized_prompts w4)\<rparr>
                                   else w4)
                                in (Inr \<lparr>success = js_gt (overallScore finalResults) initialScore,
                                         iterations = iteration st, initialScore = initialScore,
                                         finalScore = overallScore finalResults,
                                         originalPrompt = prompt0, optimizedPrompt = bestPrompt st,
                                         changes = allChanges st,
                                         result_metrics = avgMetrics finalResults,
                                         before_passRate = passRate initialResults,
                                         before_evaluations = evaluations initialResults,
                                         after_passRate = passRate finalResults,
                                         after_evaluations = evaluations finalResults\<rparr>, w5))))))))"

declare optimize_loop.simps [simp del]

section \<open>What a run leaves untouched\<close>

fun is_optimization_call :: "event \<Rightarrow> bool" where
  "is_optimization_call InsightsCall = True"
| "is_optimization_call (OptimizeCall _) = True"
| "is_optimization_call _ = False"

definition quiet :: "world \<Rightarrow> world \<Rightarrow> bool" where
  "quiet w w' \<longleftrightarrow> optimized_prompts w' = optimized_prompts w
      \<and> filter is_optimization_call (log w') = filter is_optimization_call (log w)"

lemma quiet_refl: "quiet w w" by (simp add: quiet_def)
lemma quiet_trans: "quiet w w1 \<Longrightarrow> quiet w1 w2 \<Longrightarrow> quiet w w2" by (simp add: quiet_def)

lemma chat_quiet: "chat e a m c w = (r, w') \<Longrightarrow> quiet w w'"
  by (auto simp: chat_def quiet_def Let_def)

lemma evaluateResponse_quiet: "evaluateResponse e n d t w = (r, w') \<Longrightarrow> quiet w w'"
  by (auto simp: evaluateResponse_def quiet_def Let_def split: sum.splits)

lemma simulate_loop_quiet: "simulate_loop e a ms acc cid w = (r, w') \<Longrightarrow> quiet w w'"
proof (induction ms arbitrary: acc cid w)
  case Nil
  then show ?case by (simp add: quiet_refl)
next
  case (Cons m ms)
  obtain r1 w1 where c: "chat e a m cid w = (r1, w1)" by (cases "chat e a m cid w")
  note q1 = chat_quiet [OF c]
  show ?case
  proof (cases r1)
    case (Inl err)
    with Cons.prems c q1 show ?thesis by simp
  next
    case (Inr ans)
    obtain reply c' where "ans = (reply, c')" by (cases ans)
    with Cons.prems c Inr Cons.IH q1 show ?thesis
      by (auto intro: quiet_trans)
  qed
qed

lemma execute_loop_quiet: "execute_loop e a tcs evs ms w = (r, w') \<Longrightarrow> quiet w w'"
proof (induction tcs arbitrary: evs ms w)
  case Nil
  then show ?case by (simp add: quiet_refl)
next
  case (Cons tc tcs)
  let ?um = "map content (filter (\<lambda>t. role t = User) (conversationScript tc))"
  obtain r1 w1 where s: "simulateConversation e a ?um w = (r1, w1)"
    by (cases "simulateConversation e a ?um w")
  then have q1: "quiet w w1" by (auto simp: simulateConversation_def dest: simulate_loop_quiet)
  show ?case
  proof (cases r1)
    case (Inl err)
    with Cons.prems s q1 show ?thesis by simp
  next
    case (Inr tr)
    obtain turns cid where tr: "tr = (turns, cid)" by (cases tr)
    obtain r2 w2 where ev: "evaluateResponse e (tc_name tc) (tc_description tc) turns w1 = (r2, w2)"
      by (cases "evaluateResponse e (tc_name tc) (tc_description tc) turns w1")
    note q2 = quiet_trans [OF q1 evaluateResponse_quiet [OF ev]]
    show ?thesis
    proof (cases r2)
      case (Inl err)
      with Cons.prems s Inr tr ev q2 show ?thesis by simp
    next
      case r2: (Inr res)
      with Cons.prems s Inr tr ev have "\<exists>evs' ms'. execute_loop e a tcs evs' ms' w2 = (r, w')"
        by (auto simp: Let_def)
      then show ?thesis using Cons.IH q2 by (blast intro: quiet_trans)
    qed
  qed
qed

lemma executeTests_quiet: "executeTests e a tcs w = (r, w') \<Longrightarrow> quiet w w'"
  by (auto simp: executeTests_def split: prod.splits sum.splits dest: execute_loop_quiet)

lemma generateInsights_db: "generateInsights e w = (r, w') \<Longrightarrow> optimized_prompts w' = optimized_prompts w"
  by (auto simp: generateInsights_def Let_def)

lemma optimizePrompt_db: "optimizePrompt e p w = (r, w') \<Longrightarrow> optimized_prompts w' = optimized_prompts w"
  by (auto simp: optimizePrompt_def Let_def)

lemma updateAgentPrompt_db: "updateAgentPrompt e a p w = (r, w') \<Longrightarrow> optimized_prompts w' = optimized_prompts w"
  by (auto simp: updateAgentPrompt_def Let_def)

lemma getAgent_db: "getAgent e a w = (r, w') \<Longrightarrow> optimized_prompts w' = optimized_prompts w"
  by (auto simp: getAgent_def Let_def)

lemma executeTests_db: "executeTests e a tcs w = (r, w') \<Longrightarrow> optimized_prompts w' = optimized_prompts w"
  by (auto dest: executeTests_quiet simp: quiet_def)

lemma optimize_loop_db:
  "optimize_loop e a tcs ir m st w = (r, w') \<Longrightarrow> optimized_prompts w' = optimized_prompts w"
proof (induction e a tcs ir m st w rule: optimize_loop.induct)
  case (1 e a tcs ir m st w)
  let ?st1 = "st\<lparr>iteration := iteration st + 1\<rparr>"
  show ?case
  proof (cases "real (iteration st) < m \<and> js_lt (bestScore st) (Fin 1)")
    case False
    with "1.prems" show ?thesis by (simp add: optimize_loop.simps)
  next
    case enter: True
    show ?thesis
    proof (cases "filter (\<lambda>ev. \<not> ev_passed ev) (evaluations ir) = []")
      case True
      with "1.prems" enter show ?thesis by (simp add: optimize_loop.simps)
    next
      case failing: False
      obtain r1 w1 where g: "generateInsights e w = (r1, w1)" by (cases "generateInsights e w")
      note d1 = generateInsights_db [OF g]
      show ?thesis
      proof (cases r1)
        case (Inl err)
        with "1.prems" enter failing g d1 show ?thesis by (simp add: optimize_loop.simps)
      next
        case r1: (Inr ins)
        obtain r2 w2 where o: "optimizePrompt e (currentPrompt ?st1) w1 = (r2, w2)"
          by (cases "optimizePrompt e (currentPrompt ?st1) w1")
        note d2 = optimizePrompt_db [OF o]
        show ?thesis
        proof (cases r2)
          case (Inl err)
          with "1.prems" enter failing g r1 o d1 d2 show ?thesis by (simp add: optimize_loop.simps)
        next
          case r2: (Inr opt)
          obtain r3 w3 where u: "updateAgentPrompt e a (opt_optimizedPrompt opt) w2 = (r3, w3)"
            by (cases "updateAgentPrompt e a (opt_optimizedPrompt opt) w2")
          note d3 = updateAgentPrompt_db [OF u]
          show ?thesis
          proof (cases r3)
            case (Inl err)
            with "1.prems" enter failing g r1 o r2 u d1 d2 d3 show ?thesis
              by (simp add: optimize_loop.simps)
          next
            case r3: (Inr uu)
            let ?st2 = "?st1\<lparr>currentPrompt := opt_optimizedPrompt opt,
                               allChanges := allChanges ?st1 @ opt_changes opt\<rparr>"
            obtain r4 w4 where x: "executeTests e a tcs w3 = (r4, w4)"
              by (cases "executeTests e a tcs w3")
            note d4 = executeTests_db [OF x]
            show ?thesis
            proof (cases r4)
              case (Inl err)
              with "1.prems" enter failing g r1 o r2 u r3 x d1 d2 d3 d4 show ?thesis
                by (simp add: optimize_loop.simps)
            next
              case r4: (Inr newResults)
              let ?st3 = "?st2\<lparr>bestScore := overallScore newResults,
                                 bestPrompt := currentPrompt ?st2\<rparr>"
              show ?thesis
              proof (cases "js_gt (overallScore newResults) (bestScore ?st2)
                            \<and> \<not> js_ge (bestScore ?st3) (Fin 1)")
                case False
                with "1.prems" enter failing g r1 o r2 u r3 x r4 d1 d2 d3 d4 show ?thesis
                  by (auto simp: optimize_loop.simps [of e a tcs ir m st w] Let_def split: if_splits)
              next
                case again: True
                with "1.prems" enter failing g r1 o r2 u r3 x r4
                have rec: "optimize_loop e a tcs ir m ?st3 w4 = (r, w')"
                  by (simp add: optimize_loop.simps [of e a tcs ir m st w] Let_def)
                have "optimized_prompts w' = optimized_prompts w4"
                  using again
                  by (intro "1.IH" [OF enter refl failing g [symmetric] r1 o [symmetric] r2
                        u [symmetric] r3 refl x [symmetric] r4 _ refl _ rec]) simp_all
                with d1 d2 d3 d4 show ?thesis by simp
              qed
            qed
          qed
        qed
      qed
    qed
  qed
qed

lemma js_lt_irrefl: "\<not> js_lt x x"
  by (cases x) auto

lemma upsert_agents:
  "set (map op_agentId (findOneAndUpdate_upsert d db)) = insert (op_agentId d) (set (map op_agentId db))"
  by (induction db) auto

lemma upsert_distinct:
  "distinct (map op_agentId db) \<Longrightarrow> distinct (map op_agentId (findOneAndUpdate_upsert d db))"
proof (induction db)
  case Nil
  then show ?case by simp
next
  case (Cons x xs)
  then show ?case
    using upsert_agents [of d xs] by auto
qed

definition uniform_answer :: "jsnum \<Rightarrow> raw_evaluation" where
  "uniform_answer v =
     JObj [(''reasoning'', JStr ''because''),
           (''metrics'', JObj [(''relevance'', JNum v), (''accuracy'', JNum v),
                               (''completeness'', JNum v), (''helpfulness'', JNum v)])]"

fun is_judge_call :: "event \<Rightarrow> bool" where
  "is_judge_call (JudgeCall _ _ _) = True"
| "is_judge_call _ = False"

definition judge_improving :: "event list \<Rightarrow> error + raw_evaluation" where
  "judge_improving l =
     Inr (uniform_answer (if length (filter is_judge_call l) \<le> 1 then Fin (1 / 5) else Fin (1 / 2)))"

definition suite1 :: test_suite where
  "suite1 =
     \<lparr>ts_agentId = ''agent-1'', ts_name = ''suite'', ts_description = ''d'',
      testCases = [\<lparr>tc_id = ''t1'', tc_name = ''greeting'', tc_description = ''greets'',
                    tc_category = ''happy-path'',
                    conversationScript = [\<lparr>role = User, content = ''hi''\<rparr>],
                    successCriteria = [], tc_priority = ''medium'', tc_tags = []\<rparr>],
      ts_version = 1, ts_status = ''active''\<rparr>"

definition env1 :: "(event list \<Rightarrow> error + raw_evaluation) \<Rightarrow> env" where
  "env1 j = (env0 wild_answer)\<lparr>judge := j,
               find_suite := (\<lambda>i. if i = ''suite-1'' then Some suite1 else None)\<rparr>"

definition world1 :: world where
  "world1 = \<lparr>log = [],
             optimized_prompts = [\<lparr>op_agentId = ''agent-1'', op_originalPrompt = ''p0'',
                                   op_optimizedPrompt = ''p1'', op_score = Fin (9 / 10),
                                   op_iterations = 1\<rparr>],
             test_suites = []\<rparr>"

lemma env1_sel [simp]:
  "agent_chat (env1 j) = (\<lambda>l. Inr (''ok'', ''conv-1''))"
  "judge (env1 j) = j"
  "find_suite (env1 j) = (\<lambda>i. if i = ''suite-1'' then Some suite1 else None)"
  by (simp_all add: env1_def env0_def)



lemma clamp01_Fin [simp]: "clamp01 (Fin v) = Fin (max 0 (min 1 v))"
  by (simp add: clamp01_def js_min_def js_max_def max_def min_def)

lemma js_ge_Fin [simp]: "js_ge (Fin a) (Fin b) \<longleftrightarrow> b \<le> a"
  by (simp add: js_ge_def not_less)

lemma js_gt_Fin [simp]: "js_gt (Fin a) (Fin b) \<longleftrightarrow> b < a"
  by (simp add: js_gt_def)

lemma score_uniform:
  assumes "0 \<le> v" "v \<le> 1"
  shows "score_response (uniform_answer (Fin v)) =
     Inr \<lparr>jr_passed = (7 / 10 \<le> v), jr_score = Fin v, jr_reasoning = JStr ''because'',
          jr_metrics = \<lparr>relevance = Fin v, accuracy = Fin v, completeness = Fin v, helpfulness = Fin v\<rparr>\<rparr>"
proof -
  have b: "bounded_metric (JObj [(''relevance'', JNum (Fin v)), (''accuracy'', JNum (Fin v)),
              (''completeness'', JNum (Fin v)), (''helpfulness'', JNum (Fin v))]) key = Inr (Fin v)"
    if "key \<in> {''relevance'', ''accuracy'', ''completeness'', ''helpfulness''}" for key
    using that assms by (cases "v = 0") (auto simp: bounded_metric_def js_or_def max_def min_def)
  show ?thesis
    using assms by (simp add: score_response_def uniform_answer_def b Let_def)
qed

definition transcript1 :: "chat_message list" where
  "transcript1 = [\<lparr>msg_role = ''user'', msg_content = ''hi''\<rparr>,
                  \<lparr>msg_role = ''assistant'', msg_content = ''ok''\<rparr>]"

definition results1 :: "real \<Rightarrow> test_results" where
  "results1 v =
     \<lparr>evaluations =
        [\<lparr>ev_testCaseId = ''t1'', ev_testCaseName = ''greeting'', ev_passed = (7 / 10 \<le> v),
          ev_criteriaResults = [\<lparr>cr_criterionId = ''t1'', cr_passed = (7 / 10 \<le> v),
                                  cr_score = Fin v, cr_reasoning = JStr ''because''\<rparr>],
          ev_overallScore = Fin v, ev_reasoning = JStr ''because'', ev_confidence = Fin (85 / 100),
          ev_conversation = transcript1\<rparr>],
      passRate = Fin (if 7 / 10 \<le> v then 1 else 0), overallScore = Fin v,
      avgMetrics = \<lparr>relevance = Fin v, accuracy = Fin v, completeness = Fin v,
                    helpfulness = Fin v, overall = Fin v\<rparr>\<rparr>"

lemma executeTests_suite1:
  assumes "judge e (log w @ [ChatCall ''agent-1'' ''hi'' None,
                             JudgeCall ''greeting'' ''greets'' transcript1])
             = Inr (uniform_answer (Fin v))"
    and "agent_chat e = (\<lambda>l. Inr (''ok'', ''conv-1''))" and "0 \<le> v" and "v \<le> 1"
  shows "executeTests e ''agent-1'' (testCases suite1) w =
           (Inr (results1 v),
            w\<lparr>log := log w @ [ChatCall ''agent-1'' ''hi'' None,
                               JudgeCall ''greeting'' ''greets'' transcript1]\<rparr>)"
  using assms
  by (simp add: executeTests_def suite1_def simulateConversation_def chat_def evaluateResponse_def
      score_uniform aggregate_def sum_by_def results1_def transcript1_def Let_def)

lemma env1_sel2 [simp]:
  "gen_insights (env1 j) = (\<lambda>l. Inr \<lparr>failurePatterns = [], recommendations = []\<rparr>)"
  "gen_optimized (env1 j) = (\<lambda>l. Inr \<lparr>opt_optimizedPrompt = ''better'', opt_changes = []\<rparr>)"
  "update_agent (env1 j) = (\<lambda>l. Inr ())"
  "get_agent (env1 j) = (\<lambda>l. Inr ''prompt'')"
  by (simp_all add: env1_def env0_def)


section \<open>Properties of the optimization loop\<close>

lemma results1_sel [simp]:
  "overallScore (results1 v) = Fin v"
  "passRate (results1 v) = Fin (if 7 / 10 \<le> v then 1 else 0)"
  "filter (\<lambda>ev. \<not> ev_passed ev) (evaluations (results1 v)) = [] \<longleftrightarrow> 7 / 10 \<le> v"
  by (simp_all add: results1_def)

text \<open>
  C2. When the initial batch run scores at least 1.0, \<open>optimize\<close> returns at once with
  success, \<open>iterations = 0\<close>, no change, the initial prompt as the optimized prompt, and
  the initial results reported both as "before" and as "after"; no insight or
  optimize generation call is issued and nothing is persisted.
\<close>

theorem optimize_converged_at_start:
  assumes "find_suite e suiteId = Some suite"
    and "getAgent e agentId w = (Inr prompt0, w1)"
    and "executeTests e agentId (testCases suite) w1 = (Inr initialResults, w2)"
    and "js_ge (overallScore initialResults) (Fin 1)"
  shows "optimize e agentId suiteId maxIterations w =
           (Inr \<lparr>success = True, iterations = 0, initialScore = overallScore initialResults,
                 finalScore = overallScore initialResults, originalPrompt = prompt0,
                 optimizedPrompt = prompt0, changes = [],
                 result_metrics = avgMetrics initialResults,
                 before_passRate = passRate initialResults,
                 before_evaluations = evaluations initialResults,
                 after_passRate = passRate initialResults,
                 after_evaluations = evaluations initialResults\<rparr>, w2)
         \<and> filter is_optimization_call (log w2) = filter is_optimization_call (log w)
         \<and> optimized_prompts w2 = optimized_prompts w"
proof -
  have run: "optimize e agentId suiteId maxIterations w =
           (Inr \<lparr>success = True, iterations = 0, initialScore = overallScore initialResults,
                 finalScore = overallScore initialResults, originalPrompt = prompt0,
                 optimizedPrompt = prompt0, changes = [],
                 result_metrics = avgMetrics initialResults,
                 before_passRate = passRate initialResults,
                 before_evaluations = evaluations initialResults,
                 after_passRate = passRate initialResults,
                 after_evaluations = evaluations initialResults\<rparr>, w2)"
    using assms by (simp add: optimize_def Let_def)
  have q1: "quiet w w1"
    using assms(2) by (auto simp: getAgent_def quiet_def Let_def)
  have q2: "quiet w1 w2"
    using assms(3) by (rule executeTests_quiet)
  from quiet_trans [OF q1 q2] run show ?thesis
    by (simp add: quiet_def)
qed

definition world_a :: world where
  "world_a = world1\<lparr>log := [GetAgentCall ''agent-1'']\<rparr>"

definition world_b :: world where
  "world_b = world1\<lparr>log := [GetAgentCall ''agent-1'', ChatCall ''agent-1'' ''hi'' None,
                              JudgeCall ''greeting'' ''greets'' transcript1]\<rparr>"

lemma getAgent_world1: "getAgent (env1 j) ''agent-1'' world1 = (Inr ''prompt'', world_a)"
  by (simp add: getAgent_def world1_def world_a_def)

lemma initial_run:
  "j [GetAgentCall ''agent-1'', ChatCall ''agent-1'' ''hi'' None,
      JudgeCall ''greeting'' ''greets'' transcript1] = Inr (uniform_answer (Fin v))
   \<Longrightarrow> 0 \<le> v \<Longrightarrow> v \<le> 1
   \<Longrightarrow> executeTests (env1 j) ''agent-1'' (testCases suite1) world_a = (Inr (results1 v), world_b)"
  by (subst executeTests_suite1 [where v = v]) (simp_all add: world_a_def world_b_def world1_def)

theorem optimize_converged_at_start_witness:
  "find_suite (env1 (judge_always (uniform_answer (Fin 1)))) ''suite-1'' = Some suite1
   \<and> getAgent (env1 (judge_always (uniform_answer (Fin 1)))) ''agent-1'' world1
       = (Inr ''prompt'', world_a)
   \<and> executeTests (env1 (judge_always (uniform_answer (Fin 1)))) ''agent-1'' (testCases suite1) world_a
       = (Inr (results1 1), world_b)
   \<and> js_ge (overallScore (results1 1)) (Fin 1)
   \<and> iterations (projr (fst (optimize (env1 (judge_always (uniform_answer (Fin 1))))
                                ''agent-1'' ''suite-1'' 2 world1))) = 0
   \<and> filter is_optimization_call (log world_b) = []"
proof -
  let ?e = "env1 (judge_always (uniform_answer (Fin 1)))"
  have h1: "find_suite ?e ''suite-1'' = Some suite1" by simp
  have h2: "getAgent ?e ''agent-1'' world1 = (Inr ''prompt'', world_a)" by (rule getAgent_world1)
  have h3: "executeTests ?e ''agent-1'' (testCases suite1) world_a = (Inr (results1 1), world_b)"
    by (rule initial_run) (simp_all add: judge_always_def)
  have h4: "js_ge (overallScore (results1 1)) (Fin 1)" by simp
  from optimize_converged_at_start [OF h1 h2 h3 h4, of 2]
  have "iterations (projr (fst (optimize ?e ''agent-1'' ''suite-1'' 2 world1))) = 0"
    and "filter is_optimization_call (log world_b) = []"
    by (simp_all add: world1_def)
  with h1 h2 h3 h4 show ?thesis by blast
qed

text \<open>
  C3, as the code has it. At the end of a run a best-prompt record is written exactly
  when the final score is greater than the initial score of that same run, and nothing
  is written when the run aborts with an error. The write is an upsert keyed by the
  agent identity: it replaces the agent's record or inserts one, so a collection with at
  most one record per agent keeps that property. The written score is the final score of
  the run; it is not compared with the score of the record it replaces.
\<close>

theorem optimize_persists_on_improvement:
  assumes "optimize e agentId suiteId maxIterations w = (r, w')"
  shows "(case r of
            Inl err \<Rightarrow> optimized_prompts w' = optimized_prompts w
          | Inr res \<Rightarrow>
              optimized_prompts w' =
                (if js_gt (finalScore res) (initialScore res) then
                   findOneAndUpdate_upsert
                     \<lparr>op_agentId = agentId, op_originalPrompt = originalPrompt res,
                      op_optimizedPrompt = optimizedPrompt res, op_score = finalScore res,
                      op_iterations = iterations res\<rparr>
                     (optimized_prompts w)
                 else optimized_prompts w))
         \<and> (distinct (map op_agentId (optimized_prompts w))
              \<longrightarrow> distinct (map op_agentId (optimized_prompts w')))"
proof -
  let ?P = "case r of
            Inl err \<Rightarrow> optimized_prompts w' = optimized_prompts w
          | Inr res \<Rightarrow>
              optimized_prompts w' =
                (if js_gt (finalScore res) (initialScore res) then
                   findOneAndUpdate_upsert
                     \<lparr>op_agentId = agentId, op_originalPrompt = originalPrompt res,
                      op_optimizedPrompt = optimizedPrompt res, op_score = finalScore res,
                      op_iterations = iterations res\<rparr>
                     (optimized_prompts w)
                 else optimized_prompts w)"
  have main: ?P
  proof (cases "find_suite e suiteId")
    case None
    with assms show ?thesis by (auto simp: optimize_def)
  next
    case (Some suite)
    obtain r1 w1 where g: "getAgent e agentId w = (r1, w1)" by (cases "getAgent e agentId w")
    note d1 = getAgent_db [OF g]
    show ?thesis
    proof (cases r1)
      case (Inl err)
      with assms Some g d1 show ?thesis by (auto simp: optimize_def)
    next
      case r1: (Inr prompt0)
      obtain r2 w2 where x: "executeTests e agentId (testCases suite) w1 = (r2, w2)"
        by (cases "executeTests e agentId (testCases suite) w1")
      note d2 = executeTests_db [OF x]
      show ?thesis
      proof (cases r2)
        case (Inl err)
        with assms Some g r1 x d1 d2 show ?thesis by (auto simp: optimize_def)
      next
        case r2: (Inr initialResults)
        let ?st0 = "\<lparr>bestScore = overallScore initialResults, bestPrompt = prompt0,
                      currentPrompt = prompt0, allChanges = [], iteration = 0\<rparr>"
        show ?thesis
        proof (cases "js_ge (overallScore initialResults) (Fin 1)")
          case True
          with assms Some g r1 x r2 d1 d2 show ?thesis
            by (auto simp: optimize_def Let_def js_gt_def js_lt_irrefl)
        next
          case low: False
          obtain r3 w3 where l: "optimize_loop e agentId (testCases suite) initialResults
                                   maxIterations ?st0 w2 = (r3, w3)"
            by (cases "optimize_loop e agentId (testCases suite) initialResults maxIterations ?st0 w2")
          note d3 = optimize_loop_db [OF l]
          show ?thesis
          proof (cases r3)
            case (Inl err)
            with assms Some g r1 x r2 low l d1 d2 d3 show ?thesis
              by (auto simp: optimize_def Let_def)
          next
            case r3: (Inr st)
            obtain r4 w4 where f: "executeTests e agentId (testCases suite) w3 = (r4, w4)"
              by (cases "executeTests e agentId (testCases suite) w3")
            note d4 = executeTests_db [OF f]
            show ?thesis
            proof (cases r4)
              case (Inl err)
              with assms Some g r1 x r2 low l r3 f d1 d2 d3 d4 show ?thesis
                by (auto simp: optimize_def Let_def)
            next
              case r4: (Inr finalResults)
              with assms Some g r1 x r2 low l r3 f d1 d2 d3 d4 show ?thesis
                by (auto simp: optimize_def Let_def)
            qed
          qed
        qed
      qed
    qed
  qed
  have "distinct (map op_agentId (optimized_prompts w'))"
    if "distinct (map op_agentId (optimized_prompts w))"
    using main that by (auto split: sum.splits if_splits intro: upsert_distinct)
  with main show ?thesis by blast
qed


definition log_c :: "event list" where
  "log_c = log world_b @ [InsightsCall, OptimizeCall ''prompt'', UpdatePromptCall ''agent-1'' ''better'']"

definition log_d :: "event list" where
  "log_d = log_c @ [ChatCall ''agent-1'' ''hi'' None, JudgeCall ''greeting'' ''greets'' transcript1]"

definition log_e :: "event list" where
  "log_e = log_d @ [ChatCall ''agent-1'' ''hi'' None, JudgeCall ''greeting'' ''greets'' transcript1]"

lemma second_run:
  "executeTests (env1 judge_improving) ''agent-1'' (testCases suite1) (world1\<lparr>log := log_c\<rparr>)
     = (Inr (results1 (1 / 2)), world1\<lparr>log := log_d\<rparr>)"
  by (subst executeTests_suite1 [where v = "1 / 2"])
    (simp_all add: judge_improving_def world1_def log_c_def log_d_def world_b_def)

lemma final_run:
  "executeTests (env1 judge_improving) ''agent-1'' (testCases suite1) (world1\<lparr>log := log_d\<rparr>)
     = (Inr (results1 (1 / 2)), world1\<lparr>log := log_e\<rparr>)"
  by (subst executeTests_suite1 [where v = "1 / 2"])
    (simp_all add: judge_improving_def world1_def log_c_def log_d_def log_e_def world_b_def)

definition state_d :: loop_state where
  "state_d = \<lparr>bestScore = Fin (1 / 2), bestPrompt = ''better'', currentPrompt = ''better'',
              allChanges = [], iteration = 1\<rparr>"

lemma loop_stops: "optimize_loop e a tcs ir 1 state_d w = (Inr state_d, w)"
  by (subst optimize_loop.simps) (simp add: state_d_def)

lemma loop_run:
  "optimize_loop (env1 judge_improving) ''agent-1'' (testCases suite1) (results1 (1 / 5)) 1
     \<lparr>bestScore = Fin (1 / 5), bestPrompt = ''prompt'', currentPrompt = ''prompt'',
      allChanges = [], iteration = 0\<rparr> world_b
   = (Inr state_d, world1\<lparr>log := log_d\<rparr>)"
proof -
  have w3: "world_b\<lparr>log := log world_b @ [InsightsCall, OptimizeCall ''prompt'',
               UpdatePromptCall ''agent-1'' ''better'']\<rparr> = world1\<lparr>log := log_c\<rparr>"
    by (simp add: world_b_def log_c_def)
  have st: "\<lparr>bestScore = Fin (1 / 2), bestPrompt = ''better'', currentPrompt = ''better'',
              allChanges = [], iteration = Suc 0\<rparr> = state_d"
    by (simp add: state_d_def)
  show ?thesis
    by (subst optimize_loop.simps)
      (simp add: generateInsights_def optimizePrompt_def updateAgentPrompt_def Let_def w3
        second_run st loop_stops)
qed

definition result1 :: optimization_result where
  "result1 =
     \<lparr>success = True, iterations = 1, initialScore = Fin (1 / 5), finalScore = Fin (1 / 2),
      originalPrompt = ''prompt'', optimizedPrompt = ''better'', changes = [],
      result_metrics = avgMetrics (results1 (1 / 2)),
      before_passRate = Fin 0, before_evaluations = evaluations (results1 (1 / 5)),
      after_passRate = Fin 0, after_evaluations = evaluations (results1 (1 / 2))\<rparr>"

definition world_e :: world where
  "world_e = \<lparr>log = log_e,
              optimized_prompts = [\<lparr>op_agentId = ''agent-1'', op_originalPrompt = ''prompt'',
                                    op_optimizedPrompt = ''better'', op_score = Fin (1 / 2),
                                    op_iterations = 1\<rparr>],
              test_suites = []\<rparr>"

lemma improving_run:
  "optimize (env1 judge_improving) ''agent-1'' ''suite-1'' 1 world1 = (Inr result1, world_e)"
proof -
  have init: "executeTests (env1 judge_improving) ''agent-1'' (testCases suite1) world_a
                = (Inr (results1 (1 / 5)), world_b)"
    by (rule initial_run) (simp_all add: judge_improving_def)
  show ?thesis
    by (simp add: optimize_def getAgent_world1 init loop_run final_run Let_def state_d_def
        result1_def)
      (simp_all add: world_e_def world1_def)
qed

theorem optimize_persists_on_improvement_witness:
  "optimize (env1 judge_improving) ''agent-1'' ''suite-1'' 1 world1 = (Inr result1, world_e)
   \<and> js_gt (finalScore result1) (initialScore result1)
   \<and> optimized_prompts world_e =
       findOneAndUpdate_upsert
         \<lparr>op_agentId = ''agent-1'', op_originalPrompt = ''prompt'', op_optimizedPrompt = ''better'',
          op_score = Fin (1 / 2), op_iterations = 1\<rparr> (optimized_prompts world1)
   \<and> distinct (map op_agentId (optimized_prompts world1))
   \<and> distinct (map op_agentId (optimized_prompts world_e))"
proof -
  have gt: "js_gt (finalScore result1) (initialScore result1)"
    by (simp add: result1_def)
  have d: "distinct (map op_agentId (optimized_prompts world1))"
    by (simp add: world1_def)
  from optimize_persists_on_improvement [OF improving_run]
  have both: "optimized_prompts world_e =
       findOneAndUpdate_upsert
         \<lparr>op_agentId = ''agent-1'', op_originalPrompt = ''prompt'', op_optimizedPrompt = ''better'',
          op_score = Fin (1 / 2), op_iterations = 1\<rparr> (optimized_prompts world1)
     \<and> (distinct (map op_agentId (optimized_prompts world1))
          \<longrightarrow> distinct (map op_agentId (optimized_prompts world_e)))"
    by (simp add: result1_def world_e_def world1_def)
  with improving_run gt d show ?thesis by blast
qed

text \<open>
  The claim as stated fails in its last part: a run that improves from 0.2 to 0.5
  replaces a record persisted earlier with score 0.9.
\<close>

theorem persisted_score_decreases_counterexample:
  "map op_score (optimized_prompts world1) = [Fin (9 / 10)]
   \<and> map op_score (optimized_prompts
         (snd (optimize (env1 judge_improving) ''agent-1'' ''suite-1'' 1 world1))) = [Fin (1 / 2)]
   \<and> js_lt (Fin (1 / 2)) (Fin (9 / 10))"
  by (simp add: improving_run world_e_def) (simp_all add: world1_def)

section \<open>The resilient caller: LLMClient.withRetry\<close>

text \<open>
  \<open>parseInt(s, 10)\<close> on an ASCII string: leading white space is skipped, a sign is
  read, then the longest run of decimal digits; without a digit the result is NaN.
\<close>

definition parseInt10 :: "string \<Rightarrow> jsnum" where
  "parseInt10 s =
     (let t = dropWhile is_space s;
          neg = (t \<noteq> [] \<and> hd t = CHR ''-'');
          u = (if t \<noteq> [] \<and> (hd t = CHR ''-'' \<or> hd t = CHR ''+'') then tl t else t);
          ds = takeWhile is_digit u
      in if ds = [] then NaN
         else if neg then Fin (- real (digits_value ds)) else Fin (real (digits_value ds)))"

text \<open>
  \<open>parseInt(headers['retry-after'] || '60', 10) * 1000\<close>: the wait after a 429, in
  milliseconds.
\<close>

definition rate_limit_wait :: "string option \<Rightarrow> jsnum" where
  "rate_limit_wait retryAfterHeader = js_times_1000 (parseInt10 (str_or retryAfterHeader ''60''))"

datatype retry_event = Attempt nat | Sleep jsnum

fun is_attempt :: "retry_event \<Rightarrow> bool" where
  "is_attempt (Attempt _) = True"
| "is_attempt (Sleep _) = False"

text \<open>What \<open>axios.isAxiosError\<close>, \<open>error.response?.status\<close> and the header read give.\<close>

fun isAxiosError :: "error \<Rightarrow> bool" where
  "isAxiosError (AxiosError _ _) = True"
| "isAxiosError _ = False"

fun response_status :: "error \<Rightarrow> nat option" where
  "response_status (AxiosError status _) = status"
| "response_status _ = None"

fun retry_after_header :: "error \<Rightarrow> string option" where
  "retry_after_header (AxiosError _ h) = h"
| "retry_after_header _ = None"

text \<open>\<open>status && status >= 400 && status < 500 && status !== 429\<close>.\<close>

definition is_client_error :: "nat option \<Rightarrow> bool" where
  "is_client_error status =
     (case status of None \<Rightarrow> False | Some s \<Rightarrow> s \<noteq> 0 \<and> 400 \<le> s \<and> s < 500 \<and> s \<noteq> 429)"

text \<open>
  The \<open>for\<close> loop of \<open>withRetry\<close>. \<open>operation k\<close> is what the k-th call of the operation
  gives; the trace records the calls and the sleeps, the latter in milliseconds.
  \<open>lastError\<close> starts as \<open>null\<close> (\<open>None\<close>), and is what is thrown when the loop ends.
\<close>

function withRetry_loop ::
  "(nat \<Rightarrow> error + 'a) \<Rightarrow> nat \<Rightarrow> nat \<Rightarrow> error option \<Rightarrow> retry_event list
     \<Rightarrow> (error option + 'a) \<times> retry_event list" where
  "withRetry_loop operation maxRetries attempt lastError tr =
     (if attempt < maxRetries then
        (case operation attempt of
           Inr v \<Rightarrow> (Inr v, tr @ [Attempt attempt])
         | Inl err \<Rightarrow>
             if isAxiosError err \<and> is_client_error (response_status err) then
               (Inl (Some err), tr @ [Attempt attempt])
             else if isAxiosError err \<and> response_status err = Some 429 then
               withRetry_loop operation maxRetries (attempt + 1) (Some err)
                 (tr @ [Attempt attempt, Sleep (rate_limit_wait (retry_after_header err))])
             else if attempt < maxRetries - 1 then
               withRetry_loop operation maxRetries (attempt + 1) (Some err)
                 (tr @ [Attempt attempt, Sleep (Fin (2 ^ attempt * 1000))])
             else
               withRetry_loop operation maxRetries (attempt + 1) (Some err) (tr @ [Attempt attempt]))
      else (Inl lastError, tr))"
  by pat_completeness auto
termination
  by (relation "measure (\<lambda>(operation, maxRetries, attempt, lastError, tr). maxRetries - attempt)")
    auto

declare withRetry_loop.simps [simp del]

definition withRetry ::
  "(nat \<Rightarrow> error + 'a) \<Rightarrow> nat \<Rightarrow> (error option + 'a) \<times> retry_event list" where
  "withRetry operation maxRetries = withRetry_loop operation maxRetries 0 None []"

text \<open>The generation call, \<open>LLMClient.chat\<close>, retries with the default budget of 3.\<close>

definition chat_withRetry :: "(nat \<Rightarrow> error + 'a) \<Rightarrow> (error option + 'a) \<times> retry_event list" where
  "chat_withRetry operation = withRetry operation 3"

text \<open>
  A failure that is neither a 4xx other than 429 nor a 429: a 5xx, a network error or
  timeout (no status), or an error that is not an axios error.
\<close>

definition generic_failure :: "error \<Rightarrow> bool" where
  "generic_failure err \<longleftrightarrow>
     \<not> (isAxiosError err \<and> is_client_error (response_status err))
     \<and> \<not> (isAxiosError err \<and> response_status err = Some 429)"

definition rate_limited :: "error \<Rightarrow> bool" where
  "rate_limited err \<longleftrightarrow> isAxiosError err \<and> response_status err = Some 429"

definition client_error :: "error \<Rightarrow> bool" where
  "client_error err \<longleftrightarrow> isAxiosError err \<and> is_client_error (response_status err)"

lemma loop_done:
  "\<not> k < m \<Longrightarrow> withRetry_loop operation m k le tr = (Inl le, tr)"
  by (simp add: withRetry_loop.simps)

lemma loop_success:
  "k < m \<Longrightarrow> operation k = Inr v \<Longrightarrow> withRetry_loop operation m k le tr = (Inr v, tr @ [Attempt k])"
  by (simp add: withRetry_loop.simps)

lemma loop_client_error:
  "k < m \<Longrightarrow> operation k = Inl err \<Longrightarrow> client_error err
   \<Longrightarrow> withRetry_loop operation m k le tr = (Inl (Some err), tr @ [Attempt k])"
  by (simp add: withRetry_loop.simps client_error_def)

lemma loop_rate_limited:
  "k < m \<Longrightarrow> operation k = Inl err \<Longrightarrow> rate_limited err
   \<Longrightarrow> withRetry_loop operation m k le tr =
       withRetry_loop operation m (k + 1) (Some err)
         (tr @ [Attempt k, Sleep (rate_limit_wait (retry_after_header err))])"
  by (subst withRetry_loop.simps) (auto simp: rate_limited_def is_client_error_def)

lemma loop_backoff:
  "k + 1 < m \<Longrightarrow> operation k = Inl err \<Longrightarrow> generic_failure err
   \<Longrightarrow> withRetry_loop operation m k le tr =
       withRetry_loop operation m (k + 1) (Some err) (tr @ [Attempt k, Sleep (Fin (2 ^ k * 1000))])"
  by (subst withRetry_loop.simps) (auto simp: generic_failure_def)

lemma loop_last_generic:
  "k + 1 = m \<Longrightarrow> operation k = Inl err \<Longrightarrow> generic_failure err
   \<Longrightarrow> withRetry_loop operation m k le tr = (Inl (Some err), tr @ [Attempt k])"
  by (subst withRetry_loop.simps) (auto simp: generic_failure_def loop_done)

lemma error_kinds: "client_error err \<or> rate_limited err \<or> generic_failure err"
  by (auto simp: client_error_def rate_limited_def generic_failure_def)

lemma withRetry_loop_attempts:
  "length (filter is_attempt (snd (withRetry_loop operation m k le tr)))
     \<le> length (filter is_attempt tr) + (m - k)"
proof (induction "m - k" arbitrary: k le tr)
  case 0
  then show ?case by (simp add: loop_done)
next
  case (Suc n)
  then have k: "k < m" and n: "n = m - (k + 1)" by simp_all
  show ?case
  proof (cases "operation k")
    case (Inr v)
    with k show ?thesis by (simp add: loop_success)
  next
    case (Inl err)
    consider "client_error err" | "rate_limited err" | "generic_failure err" "k + 1 < m"
      | "generic_failure err" "k + 1 = m"
      using error_kinds [of err] k by fastforce
    then show ?thesis
    proof cases
      case 1
      with k Inl show ?thesis by (simp add: loop_client_error)
    next
      case 2
      from Suc.hyps(1) [OF n, of "Some err"
          "tr @ [Attempt k, Sleep (rate_limit_wait (retry_after_header err))]"] k
      show ?thesis by (simp add: loop_rate_limited [where operation = operation and k = k, OF k Inl 2])
    next
      case 3
      from Suc.hyps(1) [OF n, of "Some err" "tr @ [Attempt k, Sleep (Fin (2 ^ k * 1000))]"] k
      show ?thesis by (simp add: loop_backoff [where operation = operation and k = k, OF 3(2) Inl 3(1)])
    next
      case 4
      then show ?thesis using Inl by (simp add: loop_last_generic)
    qed
  qed
qed

text \<open>The trace only grows, and an attempt that starts is recorded first.\<close>

lemma withRetry_loop_extends:
  "\<exists>rest. snd (withRetry_loop operation m k le tr) = tr @ rest"
proof (induction "m - k" arbitrary: k le tr)
  case 0
  then show ?case by (simp add: loop_done)
next
  case (Suc n)
  then have k: "k < m" and n: "n = m - (k + 1)" by simp_all
  show ?case
  proof (cases "operation k")
    case (Inr v)
    with k show ?thesis by (simp add: loop_success)
  next
    case (Inl err)
    consider "client_error err" | "rate_limited err" | "generic_failure err" "k + 1 < m"
      | "generic_failure err" "k + 1 = m"
      using error_kinds [of err] k by fastforce
    then show ?thesis
    proof cases
      case 1
      with k Inl show ?thesis by (simp add: loop_client_error)
    next
      case 2
      from Suc.hyps(1) [OF n, of "Some err"
          "tr @ [Attempt k, Sleep (rate_limit_wait (retry_after_header err))]"]
      show ?thesis by (auto simp: loop_rate_limited [where operation = operation and k = k, OF k Inl 2])
    next
      case 3
      from Suc.hyps(1) [OF n, of "Some err" "tr @ [Attempt k, Sleep (Fin (2 ^ k * 1000))]"]
      show ?thesis by (auto simp: loop_backoff [where operation = operation and k = k, OF 3(2) Inl 3(1)])
    next
      case 4
      then show ?thesis using Inl by (simp add: loop_last_generic)
    qed
  qed
qed

lemma withRetry_loop_starts:
  assumes "k < m"
  shows "\<exists>rest. snd (withRetry_loop operation m k le tr) = tr @ Attempt k # rest"
proof (cases "operation k")
  case (Inr v)
  with assms show ?thesis by (simp add: loop_success)
next
  case (Inl err)
  consider "client_error err" | "rate_limited err" | "generic_failure err" "k + 1 < m"
    | "generic_failure err" "k + 1 = m"
    using error_kinds [of err] assms by fastforce
  then show ?thesis
  proof cases
    case 1
    with assms Inl show ?thesis by (simp add: loop_client_error)
  next
    case 2
    from withRetry_loop_extends [of operation m "k + 1" "Some err"
        "tr @ [Attempt k, Sleep (rate_limit_wait (retry_after_header err))]"]
    show ?thesis by (auto simp: loop_rate_limited [where operation = operation and k = k, OF assms Inl 2])
  next
    case 3
    from withRetry_loop_extends [of operation m "k + 1" "Some err"
        "tr @ [Attempt k, Sleep (Fin (2 ^ k * 1000))]"]
    show ?thesis by (auto simp: loop_backoff [where operation = operation and k = k, OF 3(2) Inl 3(1)])
  next
    case 4
    then show ?thesis using Inl by (simp add: loop_last_generic)
  qed
qed


text \<open>A 5xx answer, or no answer at all (network error, timeout).\<close>

definition server_or_network :: "nat option \<Rightarrow> bool" where
  "server_or_network status = (case status of None \<Rightarrow> True | Some s \<Rightarrow> 500 \<le> s)"

lemma server_or_network_generic:
  "server_or_network status \<Longrightarrow> generic_failure (AxiosError status h)"
  by (auto simp: server_or_network_def generic_failure_def is_client_error_def split: option.splits)

lemma rate_limit_wait_default: "rate_limit_wait None = Fin 60000"
  by (simp add: rate_limit_wait_def str_or_def parseInt10_def is_space_def is_digit_def
      digits_value_def digit_value_def)

lemma rate_limit_wait_5: "rate_limit_wait (Some ''5'') = Fin 5000"
  by (simp add: rate_limit_wait_def str_or_def parseInt10_def is_space_def is_digit_def
      digits_value_def digit_value_def)

text \<open>
  C5, as the code has it. The generation call makes at most 3 attempts, whatever the
  failures (\<open>withRetry\<close> at most \<open>maxRetries\<close>). At any attempt k of the loop: a 4xx
  other than 429 ends the call at once with that error, with no sleep and no further
  attempt; a 5xx or network error with an attempt left is followed by a sleep of \<open>2^k\<close>
  seconds and then attempt k+1; a 429 is followed by a sleep of the retry-after duration
  (60 seconds without the header, 5 seconds for "5") and then, with an attempt left,
  attempt k+1. A 429 uses up an attempt of the same counter as any other failure. What
  differs is the wait: after the last attempt a 429 still sleeps before the call fails,
  where a 5xx or network error fails without sleeping.
\<close>

theorem withRetry_policy:
  "length (filter is_attempt (snd (chat_withRetry operation))) \<le> 3
   \<and> length (filter is_attempt (snd (withRetry operation maxRetries))) \<le> maxRetries
   \<and> (k < maxRetries \<and> operation k = Inl (AxiosError (Some s) h) \<and> 400 \<le> s \<and> s < 500 \<and> s \<noteq> 429
        \<longrightarrow> withRetry_loop operation maxRetries k le tr
              = (Inl (Some (AxiosError (Some s) h)), tr @ [Attempt k]))
   \<and> (k + 1 < maxRetries \<and> operation k = Inl (AxiosError status h) \<and> server_or_network status
        \<longrightarrow> (\<exists>rest. snd (withRetry_loop operation maxRetries k le tr)
                      = tr @ [Attempt k, Sleep (Fin (2 ^ k * 1000)), Attempt (k + 1)] @ rest))
   \<and> (k + 1 < maxRetries \<and> operation k = Inl (AxiosError (Some 429) h)
        \<longrightarrow> (\<exists>rest. snd (withRetry_loop operation maxRetries k le tr)
                      = tr @ [Attempt k, Sleep (rate_limit_wait h), Attempt (k + 1)] @ rest))
   \<and> rate_limit_wait None = Fin 60000
   \<and> rate_limit_wait (Some ''5'') = Fin 5000
   \<and> (k + 1 = maxRetries \<and> operation k = Inl (AxiosError (Some 429) h)
        \<longrightarrow> withRetry_loop operation maxRetries k le tr
              = (Inl (Some (AxiosError (Some 429) h)), tr @ [Attempt k, Sleep (rate_limit_wait h)]))
   \<and> (k + 1 = maxRetries \<and> operation k = Inl (AxiosError status h) \<and> server_or_network status
        \<longrightarrow> withRetry_loop operation maxRetries k le tr
              = (Inl (Some (AxiosError status h)), tr @ [Attempt k]))"
proof (intro conjI impI)
  show "length (filter is_attempt (snd (chat_withRetry operation))) \<le> 3"
    using withRetry_loop_attempts [of operation 3 0 None "[]"]
    by (simp add: chat_withRetry_def withRetry_def)
  show "length (filter is_attempt (snd (withRetry operation maxRetries))) \<le> maxRetries"
    using withRetry_loop_attempts [of operation maxRetries 0 None "[]"]
    by (simp add: withRetry_def)
  show "rate_limit_wait None = Fin 60000" by (rule rate_limit_wait_default)
  show "rate_limit_wait (Some ''5'') = Fin 5000" by (rule rate_limit_wait_5)
next
  assume a: "k < maxRetries \<and> operation k = Inl (AxiosError (Some s) h) \<and> 400 \<le> s \<and> s < 500 \<and> s \<noteq> 429"
  then have "client_error (AxiosError (Some s) h)"
    by (simp add: client_error_def is_client_error_def)
  with a show "withRetry_loop operation maxRetries k le tr
              = (Inl (Some (AxiosError (Some s) h)), tr @ [Attempt k])"
    by (simp add: loop_client_error)
next
  assume a: "k + 1 < maxRetries \<and> operation k = Inl (AxiosError status h) \<and> server_or_network status"
  then have g: "generic_failure (AxiosError status h)"
    by (simp add: server_or_network_generic)
  from a have k1: "k + 1 < maxRetries" and ok: "operation k = Inl (AxiosError status h)" by simp_all
  have "withRetry_loop operation maxRetries k le tr =
          withRetry_loop operation maxRetries (k + 1) (Some (AxiosError status h))
            (tr @ [Attempt k, Sleep (Fin (2 ^ k * 1000))])"
    by (rule loop_backoff [where operation = operation and k = k, OF k1 ok g])
  moreover obtain rest where "snd (withRetry_loop operation maxRetries (k + 1)
      (Some (AxiosError status h)) (tr @ [Attempt k, Sleep (Fin (2 ^ k * 1000))]))
      = (tr @ [Attempt k, Sleep (Fin (2 ^ k * 1000))]) @ Attempt (k + 1) # rest"
    using withRetry_loop_starts [OF k1] by blast
  ultimately show "\<exists>rest. snd (withRetry_loop operation maxRetries k le tr)
                      = tr @ [Attempt k, Sleep (Fin (2 ^ k * 1000)), Attempt (k + 1)] @ rest"
    by simp
next
  assume a: "k + 1 < maxRetries \<and> operation k = Inl (AxiosError (Some 429) h)"
  have r: "rate_limited (AxiosError (Some 429) h)" by (simp add: rate_limited_def)
  from a have k1: "k + 1 < maxRetries" and k: "k < maxRetries"
    and ok: "operation k = Inl (AxiosError (Some 429) h)" by simp_all
  have "withRetry_loop operation maxRetries k le tr =
          withRetry_loop operation maxRetries (k + 1) (Some (AxiosError (Some 429) h))
            (tr @ [Attempt k, Sleep (rate_limit_wait h)])"
    using loop_rate_limited [where operation = operation and k = k, OF k ok r] by simp
  moreover obtain rest where "snd (withRetry_loop operation maxRetries (k + 1)
      (Some (AxiosError (Some 429) h)) (tr @ [Attempt k, Sleep (rate_limit_wait h)]))
      = (tr @ [Attempt k, Sleep (rate_limit_wait h)]) @ Attempt (k + 1) # rest"
    using withRetry_loop_starts [OF k1] by blast
  ultimately show "\<exists>rest. snd (withRetry_loop operation maxRetries k le tr)
                      = tr @ [Attempt k, Sleep (rate_limit_wait h), Attempt (k + 1)] @ rest"
    by simp
next
  assume a: "k + 1 = maxRetries \<and> operation k = Inl (AxiosError (Some 429) h)"
  have r: "rate_limited (AxiosError (Some 429) h)" by (simp add: rate_limited_def)
  from a have k: "k < maxRetries" and ok: "operation k = Inl (AxiosError (Some 429) h)" by auto
  from a show "withRetry_loop operation maxRetries k le tr
              = (Inl (Some (AxiosError (Some 429) h)), tr @ [Attempt k, Sleep (rate_limit_wait h)])"
    using loop_rate_limited [where operation = operation and k = k, OF k ok r]
    by (auto simp: loop_done)
next
  assume a: "k + 1 = maxRetries \<and> operation k = Inl (AxiosError status h) \<and> server_or_network status"
  then have g: "generic_failure (AxiosError status h)"
    by (simp add: server_or_network_generic)
  from a have k1: "k + 1 = maxRetries" and ok: "operation k = Inl (AxiosError status h)" by simp_all
  show "withRetry_loop operation maxRetries k le tr
              = (Inl (Some (AxiosError status h)), tr @ [Attempt k])"
    by (rule loop_last_generic [where operation = operation and k = k, OF k1 ok g])
qed


text \<open>Operations that always fail the same way.\<close>

definition always_status :: "nat option \<Rightarrow> nat \<Rightarrow> error + string" where
  "always_status status k = Inl (AxiosError status None)"

theorem withRetry_policy_witness:
  "withRetry_loop (always_status (Some 404)) 3 0 None [] =
     (Inl (Some (AxiosError (Some 404) None)), [Attempt 0])
   \<and> (\<exists>rest. snd (withRetry_loop (always_status (Some 503)) 3 0 None [])
                = [Attempt 0, Sleep (Fin 1000), Attempt 1] @ rest)
   \<and> (\<exists>rest. snd (withRetry_loop (always_status (Some 429)) 3 0 None [])
                = [Attempt 0, Sleep (Fin 60000), Attempt 1] @ rest)
   \<and> withRetry_loop (always_status (Some 429)) 3 2 None [] =
       (Inl (Some (AxiosError (Some 429) None)), [Attempt 2, Sleep (Fin 60000)])
   \<and> withRetry_loop (always_status None) 3 2 None [] =
       (Inl (Some (AxiosError None None)), [Attempt 2])
   \<and> length (filter is_attempt (snd (chat_withRetry (always_status (Some 429))))) \<le> 3"
proof -
  note p404 = withRetry_policy [of "always_status (Some 404)" 3 0 404 None None "[]" None]
  note p503 = withRetry_policy [of "always_status (Some 503)" 3 0 0 None None "[]" "Some 503"]
  note p429 = withRetry_policy [of "always_status (Some 429)" 3 0 0 None None "[]" None]
  note l429 = withRetry_policy [of "always_status (Some 429)" 3 2 0 None None "[]" None]
  note lnet = withRetry_policy [of "always_status None" 3 2 0 None None "[]" None]
  have a: "withRetry_loop (always_status (Some 404)) 3 0 None [] =
     (Inl (Some (AxiosError (Some 404) None)), [Attempt 0])"
    using p404 by (simp add: always_status_def)
  have b: "\<exists>rest. snd (withRetry_loop (always_status (Some 503)) 3 0 None [])
                = [Attempt 0, Sleep (Fin 1000), Attempt 1] @ rest"
    using p503 by (simp add: always_status_def server_or_network_def)
  have c: "\<exists>rest. snd (withRetry_loop (always_status (Some 429)) 3 0 None [])
                = [Attempt 0, Sleep (Fin 60000), Attempt 1] @ rest"
    using p429 by (auto simp: always_status_def)
  have d: "withRetry_loop (always_status (Some 429)) 3 2 None [] =
       (Inl (Some (AxiosError (Some 429) None)), [Attempt 2, Sleep (Fin 60000)])"
    using l429 by (auto simp: always_status_def)
  have e: "withRetry_loop (always_status None) 3 2 None [] =
       (Inl (Some (AxiosError None None)), [Attempt 2])"
    using lnet by (simp add: always_status_def server_or_network_def)
  have f: "length (filter is_attempt (snd (chat_withRetry (always_status (Some 429))))) \<le> 3"
    using p429 by blast
  from a b c d e f show ?thesis by blast
qed

text \<open>
  The claim as stated fails in its last part: rate-limit retries are bounded by the
  attempt counter exactly as the others are. Three 429 answers in a row use up the three
  attempts and the call fails, as it does after three 503 answers.
\<close>

theorem rate_limit_uses_attempts_counterexample:
  "withRetry (always_status (Some 429)) 3 =
     (Inl (Some (AxiosError (Some 429) None)),
      [Attempt 0, Sleep (Fin 60000), Attempt 1, Sleep (Fin 60000), Attempt 2, Sleep (Fin 60000)])
   \<and> withRetry (always_status (Some 503)) 3 =
       (Inl (Some (AxiosError (Some 503) None)),
        [Attempt 0, Sleep (Fin 1000), Attempt 1, Sleep (Fin 2000), Attempt 2])"
  by (simp add: withRetry_def withRetry_loop.simps always_status_def is_client_error_def
      rate_limit_wait_default)

section \<open>Saving a suite: the validators of the TestSuite schema\<close>












section \<open>Synthesis: OptimizerService.generateTestSuite\<close>







section \<open>Properties of synthesis\<close>




























section \<open>A synthesis run\<close>

text \<open>
  The generator answers the happy-path request with one case whose script starts with
  the agent and which has no criteria, and the other requests with no case.
\<close>

definition raw_case_a :: raw_test_case where
  "raw_case_a =
     \<lparr>rtc_name = Some ''books a cleaning'', rtc_description = Some ''asks for a cleaning'',
      rtc_category = None, rtc_priority = None, rtc_tags = None,
      rtc_conversationScript =
        JArr [JObj [(''speaker'', JStr ''bot''), (''text'', JStr ''Welcome'')],
              JObj [(''role'', JStr ''user''), (''content'', JStr ''I need a cleaning'')]],
      rtc_conversation = JUndefined, rtc_script = JUndefined, rtc_successCriteria = Some []\<rparr>"

definition env2 :: env where
  "env2 = (env0 wild_answer)
     \<lparr>get_agent := (\<lambda>l. Inr ''You are a dental clinic assistant.''),
      gen_test_cases :=
        (\<lambda>l. if last l = GenerateCasesCall ''happy-path'' then Inr [raw_case_a] else Inr [])\<rparr>"





lemma env2_sel [simp]:
  "get_agent env2 = (\<lambda>l. Inr ''You are a dental clinic assistant.'')"
  "gen_test_cases env2 =
     (\<lambda>l. if last l = GenerateCasesCall ''happy-path'' then Inr [raw_case_a] else Inr [])"
  "analyze_prompt env2 = (\<lambda>l. Inr ''books dental appointments'')"
  "fresh_id env2 = (\<lambda>l k. ''id-'' @ show_nat (length l) @ ''-'' @ show_nat k)"
  "today env2 = (\<lambda>l. ''2025-01-01'')"
  by (simp_all add: env2_def env0_def)








section \<open>The audit trail: the delete hooks of OptimizationRecord\<close>

datatype optimization_status = PENDING | APPLIED | VALIDATED | ROLLED_BACK

record optimization_record =
  or_id :: string
  or_agentId :: string
  or_executionId :: string
  or_status :: optimization_status

text \<open>
  A \<open>pre\<close> hook tells Mongoose how to go on by calling \<open>next\<close>, with an error or
  without. The two \<open>deleteOne\<close> hooks call \<open>next(new Error(...))\<close> and, having no
  \<open>return\<close>, go on to call \<open>next()\<close>; so a hook is modelled by the calls it makes, in
  order.
\<close>

datatype next_call = Next | NextError string

definition audit_message :: string where
  "audit_message =
     ''Cannot delete optimization record with status \"applied\" - audit trail must be preserved''"

text \<open>The document hook: \<open>this\<close> is the document \<open>deleteOne()\<close> was called on.\<close>

definition pre_deleteOne_document :: "optimization_record \<Rightarrow> next_call list" where
  "pre_deleteOne_document this =
     (if or_status this = APPLIED then [NextError audit_message] else []) @ [Next]"

text \<open>
  The query hook: it looks up \<open>this.model.findOne(this.getFilter())\<close>, the first record
  that the filter matches.
\<close>

definition pre_deleteOne_query ::
  "(optimization_record \<Rightarrow> bool) \<Rightarrow> optimization_record list \<Rightarrow> next_call list" where
  "pre_deleteOne_query flt store =
     (case find flt store of
        None \<Rightarrow> []
      | Some doc \<Rightarrow> if or_status doc = APPLIED then [NextError audit_message] else [])
     @ [Next]"

text \<open>
  How Mongoose runs a hook: the first call of \<open>next\<close> decides, any later call is
  ignored. An error rejects the operation before it reaches the database.
\<close>

fun hook_outcome :: "next_call list \<Rightarrow> error option" where
  "hook_outcome (NextError m # _) = Some (PlainError m)"
| "hook_outcome _ = None"

text \<open>\<open>deleteOne\<close> on the collection removes the first record that matches.\<close>

fun remove_first :: "('a \<Rightarrow> bool) \<Rightarrow> 'a list \<Rightarrow> 'a list" where
  "remove_first P [] = []"
| "remove_first P (x # xs) = (if P x then xs else x # remove_first P xs)"

text \<open>\<open>OptimizationRecordModel.deleteOne(filter)\<close>: the query hook, then the removal.\<close>

definition query_deleteOne ::
  "(optimization_record \<Rightarrow> bool) \<Rightarrow> optimization_record list
     \<Rightarrow> (error + unit) \<times> optimization_record list" where
  "query_deleteOne flt store =
     (case hook_outcome (pre_deleteOne_query flt store) of
        Some err \<Rightarrow> (Inl err, store)
      | None \<Rightarrow> (Inr (), remove_first flt store))"

text \<open>
  \<open>doc.deleteOne()\<close>. Mongoose 8 runs the document hook and then carries the removal out
  as the query \<open>deleteOne({ _id: doc._id })\<close>, whose query hook runs as well: what is
  looked at is first the status the document has in memory, then the status of the
  stored record with the document's id.
\<close>

definition document_deleteOne ::
  "optimization_record \<Rightarrow> optimization_record list \<Rightarrow> (error + unit) \<times> optimization_record list" where
  "document_deleteOne doc store =
     (case hook_outcome (pre_deleteOne_document doc) of
        Some err \<Rightarrow> (Inl err, store)
      | None \<Rightarrow> query_deleteOne (\<lambda>r. or_id r = or_id doc) store)"

text \<open>
  The other ways a Mongoose model deletes. The schema registers \<open>pre\<close> hooks under the
  name \<open>deleteOne\<close> and under \<open>save\<close> only, so \<open>deleteMany\<close> and \<open>findOneAndDelete\<close> reach the
  database with no hook in between: \<open>deleteMany(filter)\<close> removes every record that
  matches, \<open>findOneAndDelete(filter)\<close> removes the first one and returns it.
\<close>

definition query_deleteMany ::
  "(optimization_record \<Rightarrow> bool) \<Rightarrow> optimization_record list
     \<Rightarrow> (error + unit) \<times> optimization_record list" where
  "query_deleteMany flt store = (Inr (), filter (\<lambda>r. \<not> flt r) store)"

definition query_findOneAndDelete ::
  "(optimization_record \<Rightarrow> bool) \<Rightarrow> optimization_record list
     \<Rightarrow> (error + optimization_record option) \<times> optimization_record list" where
  "query_findOneAndDelete flt store = (Inr (find flt store), remove_first flt store)"

definition record_applied :: optimization_record where
  "record_applied = \<lparr>or_id = ''r1'', or_agentId = ''agent-1'', or_executionId = ''x1'',
                     or_status = APPLIED\<rparr>"

definition record_pending :: optimization_record where
  "record_pending = \<lparr>or_id = ''r2'', or_agentId = ''agent-1'', or_executionId = ''x2'',
                     or_status = PENDING\<rparr>"

lemma remove_first_keeps:
  "find P xs = None \<or> (\<exists>d. find P xs = Some d \<and> \<not> Q d)
   \<Longrightarrow> filter Q (remove_first P xs) = filter Q xs"
  by (induction xs) (auto split: if_splits)

lemma query_deleteOne_ok:
  assumes "query_deleteOne flt store = (Inr u, store')"
  shows "find flt store = None \<or> (\<exists>d. find flt store = Some d \<and> or_status d \<noteq> APPLIED)"
    and "store' = remove_first flt store"
  using assms
  by (auto simp: query_deleteOne_def pre_deleteOne_query_def split: option.splits if_splits)

lemma query_deleteOne_rejects:
  assumes "find flt store = Some d" "or_status d = APPLIED"
  shows "query_deleteOne flt store = (Inl (PlainError audit_message), store)"
  using assms by (simp add: query_deleteOne_def pre_deleteOne_query_def)

lemma query_deleteOne_keeps_applied:
  assumes "query_deleteOne flt store = (Inr u, store')"
  shows "filter (\<lambda>r. or_status r = APPLIED) store' = filter (\<lambda>r. or_status r = APPLIED) store"
  using query_deleteOne_ok [OF assms] remove_first_keeps [of flt store "\<lambda>r. or_status r = APPLIED"]
  by simp

text \<open>
  What the two hooks achieve. \<open>deleteOne\<close>, on a document or as a query, is rejected with
  the audit error and leaves the collection as it was when the document is applied in
  memory or the first stored record it is aimed at is applied; and a \<open>deleteOne\<close> that
  goes through leaves every applied record of the collection in place.
\<close>

lemma deleteOne_applied_rejected:
  "(or_status doc = APPLIED
      \<longrightarrow> document_deleteOne doc store = (Inl (PlainError audit_message), store))
   \<and> (find (\<lambda>r. or_id r = or_id doc) store = Some d \<and> or_status d = APPLIED
      \<longrightarrow> document_deleteOne doc store = (Inl (PlainError audit_message), store))
   \<and> (find flt store = Some d \<and> or_status d = APPLIED
      \<longrightarrow> query_deleteOne flt store = (Inl (PlainError audit_message), store))
   \<and> (document_deleteOne doc store = (Inr u, store')
      \<longrightarrow> or_status doc \<noteq> APPLIED
          \<and> filter (\<lambda>r. or_status r = APPLIED) store' = filter (\<lambda>r. or_status r = APPLIED) store)
   \<and> (query_deleteOne flt store = (Inr u, store')
      \<longrightarrow> filter (\<lambda>r. or_status r = APPLIED) store' = filter (\<lambda>r. or_status r = APPLIED) store)"
proof -
  have a: "or_status doc = APPLIED
      \<longrightarrow> document_deleteOne doc store = (Inl (PlainError audit_message), store)"
    by (simp add: document_deleteOne_def pre_deleteOne_document_def)
  have b: "find (\<lambda>r. or_id r = or_id doc) store = Some d \<and> or_status d = APPLIED
      \<longrightarrow> document_deleteOne doc store = (Inl (PlainError audit_message), store)"
  proof
    assume h: "find (\<lambda>r. or_id r = or_id doc) store = Some d \<and> or_status d = APPLIED"
    then have "query_deleteOne (\<lambda>r. or_id r = or_id doc) store
                 = (Inl (PlainError audit_message), store)"
      using query_deleteOne_rejects by blast
    then show "document_deleteOne doc store = (Inl (PlainError audit_message), store)"
      by (cases "or_status doc = APPLIED")
        (simp_all add: document_deleteOne_def pre_deleteOne_document_def)
  qed
  have c: "find flt store = Some d \<and> or_status d = APPLIED
      \<longrightarrow> query_deleteOne flt store = (Inl (PlainError audit_message), store)"
    using query_deleteOne_rejects by blast
  have d: "document_deleteOne doc store = (Inr u, store')
      \<longrightarrow> or_status doc \<noteq> APPLIED
          \<and> filter (\<lambda>r. or_status r = APPLIED) store' = filter (\<lambda>r. or_status r = APPLIED) store"
  proof
    assume ok: "document_deleteOne doc store = (Inr u, store')"
    then have n: "or_status doc \<noteq> APPLIED"
      by (auto simp: document_deleteOne_def pre_deleteOne_document_def)
    with ok have "query_deleteOne (\<lambda>r. or_id r = or_id doc) store = (Inr u, store')"
      by (simp add: document_deleteOne_def pre_deleteOne_document_def)
    from query_deleteOne_keeps_applied [OF this] n
    show "or_status doc \<noteq> APPLIED
          \<and> filter (\<lambda>r. or_status r = APPLIED) store' = filter (\<lambda>r. or_status r = APPLIED) store"
      by simp
  qed
  have e: "query_deleteOne flt store = (Inr u, store')
      \<longrightarrow> filter (\<lambda>r. or_status r = APPLIED) store' = filter (\<lambda>r. or_status r = APPLIED) store"
    using query_deleteOne_keeps_applied by blast
  show ?thesis
    by (intro conjI) (rule a, rule b, rule c, rule d, rule e)
qed

lemma deleteOne_examples:
  "document_deleteOne record_applied [record_pending, record_applied]
     = (Inl (PlainError audit_message), [record_pending, record_applied])
   \<and> document_deleteOne (record_applied\<lparr>or_status := PENDING\<rparr>) [record_pending, record_applied]
     = (Inl (PlainError audit_message), [record_pending, record_applied])
   \<and> query_deleteOne (\<lambda>r. or_id r = ''r1'') [record_pending, record_applied]
     = (Inl (PlainError audit_message), [record_pending, record_applied])
   \<and> document_deleteOne record_pending [record_pending, record_applied] = (Inr (), [record_applied])
   \<and> query_deleteOne (\<lambda>r. or_agentId r = ''agent-1'') [record_pending, record_applied]
     = (Inr (), [record_applied])"
  by (simp add: document_deleteOne_def query_deleteOne_def pre_deleteOne_document_def
      pre_deleteOne_query_def record_applied_def record_pending_def)

text \<open>
  C9. The claim is that an applied record can never be deleted: every attempt is
  rejected, at document level and at query level. The hooks reject \<open>deleteOne\<close> only.
  On a collection that holds an applied record, \<open>deleteMany\<close> with a filter that matches
  it succeeds and removes it, and so does \<open>findOneAndDelete\<close>; no error is raised and the
  audit record is gone, against the claim and against the comment
  "Prevent deletion of applied records" above the hooks.
\<close>

theorem unhooked_delete_removes_applied_record:
  "or_status record_applied = APPLIED
   \<and> query_deleteMany (\<lambda>r. or_agentId r = ''agent-1'') [record_pending, record_applied]
       = (Inr (), [])
   \<and> query_deleteMany (\<lambda>r. or_status r = APPLIED) [record_pending, record_applied]
       = (Inr (), [record_pending])
   \<and> query_findOneAndDelete (\<lambda>r. or_id r = ''r1'') [record_pending, record_applied]
       = (Inr (Some record_applied), [record_pending])
   \<and> query_deleteOne (\<lambda>r. or_id r = ''r1'') [record_pending, record_applied]
       = (Inl (PlainError audit_message), [record_pending, record_applied])"
  by (simp add: query_deleteMany_def query_findOneAndDelete_def query_deleteOne_def
      pre_deleteOne_query_def record_applied_def record_pending_def)

end
